theory Spec2Isabelle
  imports Main "HOL-Library.AList"
begin

section \<open>Data model\<close>

text \<open>
  Identifiers are the strings the routes generate (\<^verbatim>\<open>position_<now>_<code>\<close>,
  \<^verbatim>\<open>candidate_...\<close>, \<^verbatim>\<open>member_...\<close>, \<^verbatim>\<open>vote_...\<close>); on strings
  \<^verbatim>\<open>toString()\<close> is the identity and \<^verbatim>\<open>===\<close> is equality. Timestamps are epoch
  milliseconds. The clock (\<^verbatim>\<open>Date.now()\<close>) and the random generators are parameters of
  the functions that read them. The record store is always available: file-system
  failures are not modelled.
\<close>

record election_status =
  isActive :: bool
  startTime :: "int option"
  endTime :: "int option"
  duration :: int

record position =
  pos_id :: string
  pos_name :: string
  pos_isActive :: bool

record candidate =
  cand_id :: string
  cand_name :: string
  cand_positionId :: string
  cand_isActive :: bool

text \<open>A JavaScript object with string keys, in insertion order: an association list.\<close>

type_synonym 'v js_object = "(string \<times> 'v) list"

record vote =
  vote_id :: string
  vote_memberId :: string
  vote_timestamp :: int
  vote_votes :: "string js_object"

record session =
  sess_id :: string
  sess_memberId :: "string option"
  sess_isAdmin :: bool
  sess_createdAt :: int
  sess_expiresAt :: int

record member =
  member_id :: string
  member_name :: string
  member_phoneNumber :: string

text \<open>The data files, one keyed collection per entity kind.\<close>

record db =
  electionStatus_file :: "election_status list"
  positions_file :: "position list"
  candidates_file :: "candidate list"
  votes_file :: "vote list"
  sessions_file :: "session list"
  members_file :: "member list"

section \<open>fileDb.js\<close>

definition fileDb_findBy :: "'r list \<Rightarrow> ('r \<Rightarrow> 'v) \<Rightarrow> 'v \<Rightarrow> 'r option" where
  "fileDb_findBy records field v = find (\<lambda>record. field record = v) records"

text \<open>\<^verbatim>\<open>Array.prototype.findIndex\<close>; \<open>None\<close> stands for \<^verbatim>\<open>-1\<close>.\<close>

fun findIndex :: "('r \<Rightarrow> bool) \<Rightarrow> 'r list \<Rightarrow> nat option" where
  "findIndex P [] = None"
| "findIndex P (x # xs) =
     (if P x then Some 0 else map_option Suc (findIndex P xs))"

definition fileDb_create :: "'r list \<Rightarrow> 'r \<Rightarrow> 'r list" where
  "fileDb_create records record = records @ [record]"

text \<open>
  \<^verbatim>\<open>update(entityType, field, value, updates)\<close>: the patch \<^verbatim>\<open>{...records[index], ...updates}\<close>
  is a function on the record. Returns the updated record, or \<open>None\<close> for \<^verbatim>\<open>null\<close>, in
  which case nothing is written.
\<close>

definition fileDb_update ::
  "'r list \<Rightarrow> ('r \<Rightarrow> 'v) \<Rightarrow> 'v \<Rightarrow> ('r \<Rightarrow> 'r) \<Rightarrow> 'r option \<times> 'r list" where
  "fileDb_update records field v updates =
     (case findIndex (\<lambda>record. field record = v) records of
        None \<Rightarrow> (None, records)
      | Some index \<Rightarrow>
          (Some (updates (records ! index)), records[index := updates (records ! index)]))"

text \<open>\<^verbatim>\<open>remove\<close>: \<^verbatim>\<open>records.splice(index, 1)\<close> deletes the first match only.\<close>

definition fileDb_remove :: "'r list \<Rightarrow> ('r \<Rightarrow> 'v) \<Rightarrow> 'v \<Rightarrow> bool \<times> 'r list" where
  "fileDb_remove records field v =
     (case findIndex (\<lambda>record. field record = v) records of
        None \<Rightarrow> (False, records)
      | Some index \<Rightarrow> (True, take index records @ drop (Suc index) records))"

section \<open>Number rendering\<close>

definition digit :: "nat \<Rightarrow> char" where
  "digit n = ''0123456789'' ! n"

function decimal :: "nat \<Rightarrow> string" where
  "decimal n = (if n < 10 then [digit n] else decimal (n div 10) @ [digit (n mod 10)])"
  by pat_completeness auto
termination
  by (relation "measure (\<lambda>n. n)") auto

declare decimal.simps [simp del]

definition toString :: "int \<Rightarrow> string" where
  "toString i = (if i < 0 then CHR ''-'' # decimal (nat (- i)) else decimal (nat i))"

section \<open>services/voting.js (file-backed election status)\<close>

definition defaultElectionStatus :: election_status where
  "defaultElectionStatus =
     \<lparr>isActive = False, startTime = None, endTime = None, duration = 24 * 60 * 60 * 1000\<rparr>"

text \<open>\<^verbatim>\<open>x || null\<close> on a number or null: zero is falsy.\<close>

definition orNull :: "int option \<Rightarrow> int option" where
  "orNull x = (case x of None \<Rightarrow> None | Some t \<Rightarrow> if t = 0 then None else Some t)"

definition loadElectionStatus :: "db \<Rightarrow> election_status" where
  "loadElectionStatus st =
     (case electionStatus_file st of
        [] \<Rightarrow> defaultElectionStatus
      | status # _ \<Rightarrow>
          \<lparr>isActive = isActive status,
           startTime = orNull (startTime status),
           endTime = orNull (endTime status),
           duration = (if duration status = 0 then 24 * 60 * 60 * 1000 else duration status)\<rparr>)"

text \<open>
  \<^verbatim>\<open>saveElectionStatus(newStatus, oldStatus)\<close> patches the first stored record whose
  \<^verbatim>\<open>duration\<close> equals \<^verbatim>\<open>oldStatus.duration\<close>. Every caller passes a \<^verbatim>\<open>newStatus\<close> with all
  four fields, so the merged record is \<^verbatim>\<open>newStatus\<close>. When no record matches, \<^verbatim>\<open>update\<close>
  returns null without writing and \<^verbatim>\<open>saveElectionStatus\<close> still returns true.
\<close>

definition saveElectionStatus :: "db \<Rightarrow> election_status \<Rightarrow> election_status \<Rightarrow> db" where
  "saveElectionStatus st newStatus oldStatus =
     st\<lparr>electionStatus_file :=
          snd (fileDb_update (electionStatus_file st) duration (duration oldStatus)
                 (\<lambda>_. newStatus))\<rparr>"

datatype submit_result =
    VoteSubmitted string
  | ElectionNotActive
  | AlreadyVoted string
  | InvalidPosition string
  | InvalidCandidate string

definition mkVoteId :: "int \<Rightarrow> string \<Rightarrow> string" where
  "mkVoteId now rnd = ''vote_'' @ toString now @ ''_'' @ rnd"

text \<open>
  \<^verbatim>\<open>submitVote(memberId, votes)\<close>. Each validating \<^verbatim>\<open>for\<close> loop returns at the first
  offending entry: \<open>find\<close> of the negated test. \<open>now\<close> is \<^verbatim>\<open>Date.now()\<close>, \<open>rnd\<close> is
  \<^verbatim>\<open>helpers.generateRandomCode(8)\<close>.
\<close>

definition validCandidate :: "candidate list \<Rightarrow> string \<Rightarrow> string \<Rightarrow> candidate option" where
  "validCandidate candidates positionId candidateId =
     find (\<lambda>candidate. cand_id candidate = candidateId
             \<and> cand_positionId candidate = positionId
             \<and> cand_isActive candidate) candidates"

definition submitVote ::
  "db \<Rightarrow> string \<Rightarrow> string js_object \<Rightarrow> int \<Rightarrow> string \<Rightarrow> submit_result \<times> db" where
  "submitVote st memberId votes now rnd =
     (let electionStatus = loadElectionStatus st in
      if \<not> isActive electionStatus then (ElectionNotActive, st)
      else
        (case fileDb_findBy (votes_file st) vote_memberId memberId of
          Some existingVote \<Rightarrow> (AlreadyVoted (vote_id existingVote), st)
        | None \<Rightarrow>
           (let activePositionIds = map pos_id (filter pos_isActive (positions_file st)) in
            (case find (\<lambda>positionId. positionId \<notin> set activePositionIds) (map fst votes) of
              Some positionId \<Rightarrow> (InvalidPosition positionId, st)
            | None \<Rightarrow>
               (case find (\<lambda>(positionId, candidateId).
                             validCandidate (candidates_file st) positionId candidateId = None)
                          votes of
                  Some (positionId, candidateId) \<Rightarrow> (InvalidCandidate positionId, st)
                | None \<Rightarrow>
                   (let voteId = mkVoteId now rnd;
                        voteRecord = \<lparr>vote_id = voteId, vote_memberId = memberId,
                                      vote_timestamp = now, vote_votes = votes\<rparr>
                    in (VoteSubmitted voteId,
                        st\<lparr>votes_file := fileDb_create (votes_file st) voteRecord\<rparr>)))))))"

subsection \<open>getResults\<close>

record candidate_result =
  cr_id :: string
  cr_name :: string
  cr_votes :: nat
  cr_isWinner :: bool

datatype status_label = InProgress | Ended | NotStarted

record position_result =
  pr_id :: string
  pr_name :: string
  pr_status :: status_label
  pr_candidates :: "candidate_result js_object"

text \<open>
  \<^verbatim>\<open>isActive ? 'In Progress' : (endTime ? 'Ended' : 'Not Started')\<close>; a zero \<^verbatim>\<open>endTime\<close>
  is falsy like null.
\<close>

definition statusLabel :: "election_status \<Rightarrow> status_label" where
  "statusLabel es =
     (if isActive es then InProgress
      else if orNull (endTime es) \<noteq> None then Ended else NotStarted)"

text \<open>
  The \<^verbatim>\<open>filter(...).reduce(...)\<close> that builds \<^verbatim>\<open>positionCandidates\<close>: an object keyed
  by candidate id, a later candidate with the same id overwriting the entry.
\<close>

definition initialCandidates :: "candidate list \<Rightarrow> position \<Rightarrow> candidate_result js_object" where
  "initialCandidates candidates position =
     fold (\<lambda>candidate acc.
             AList.update (cand_id candidate)
               \<lparr>cr_id = cand_id candidate, cr_name = cand_name candidate,
                cr_votes = 0, cr_isWinner = False\<rparr> acc)
          (filter (\<lambda>candidate. cand_positionId candidate = pos_id position
                      \<and> cand_isActive candidate) candidates)
          []"

text \<open>
  One pass of the counting loop: \<^verbatim>\<open>if (candidateId && positionCandidates[candidateId])\<close>;
  the empty string is falsy.
\<close>

definition countVote ::
  "position \<Rightarrow> vote \<Rightarrow> candidate_result js_object \<Rightarrow> candidate_result js_object" where
  "countVote position vote positionCandidates =
     (case map_of (vote_votes vote) (pos_id position) of
        None \<Rightarrow> positionCandidates
      | Some candidateId \<Rightarrow>
          if candidateId \<noteq> [] \<and> map_of positionCandidates candidateId \<noteq> None
          then map (\<lambda>(k, c). if k = candidateId then (k, c\<lparr>cr_votes := cr_votes c + 1\<rparr>)
                              else (k, c)) positionCandidates
          else positionCandidates)"

text \<open>The \<^verbatim>\<open>for (const candidateId in positionCandidates)\<close> loop with its two variables.\<close>

fun winnerLoop :: "candidate_result js_object \<Rightarrow> nat \<Rightarrow> string list \<Rightarrow> string list" where
  "winnerLoop [] maxVotes winnerIds = winnerIds"
| "winnerLoop ((candidateId, candidate) # rest) maxVotes winnerIds =
     (if cr_votes candidate > maxVotes
      then winnerLoop rest (cr_votes candidate) [candidateId]
      else if cr_votes candidate = maxVotes \<and> maxVotes > 0
      then winnerLoop rest maxVotes (winnerIds @ [candidateId])
      else winnerLoop rest maxVotes winnerIds)"

definition markWinners ::
  "string list \<Rightarrow> candidate_result js_object \<Rightarrow> candidate_result js_object" where
  "markWinners winnerIds positionCandidates =
     fold (\<lambda>winnerId pc.
             map (\<lambda>(k, c). if k = winnerId then (k, c\<lparr>cr_isWinner := True\<rparr>) else (k, c)) pc)
          winnerIds positionCandidates"

definition positionResult ::
  "election_status \<Rightarrow> candidate list \<Rightarrow> vote list \<Rightarrow> position \<Rightarrow> position_result" where
  "positionResult electionStatus candidates votes position =
     (let counted = fold (countVote position) votes (initialCandidates candidates position);
          positionCandidates =
            (if \<not> isActive electionStatus \<and> orNull (endTime electionStatus) \<noteq> None
             then markWinners (winnerLoop counted 0 []) counted
             else counted)
      in \<lparr>pr_id = pos_id position, pr_name = pos_name position,
          pr_status = statusLabel electionStatus,
          pr_candidates = positionCandidates\<rparr>)"

text \<open>
  \<^verbatim>\<open>getResults(detailed)\<close>: the \<^verbatim>\<open>results\<close> object, keyed by position id; inactive
  positions are skipped. The parameter \<^verbatim>\<open>detailed\<close> is not read by the source.
\<close>

definition getResults :: "db \<Rightarrow> bool \<Rightarrow> position_result js_object" where
  "getResults st detailed =
     (let electionStatus = loadElectionStatus st in
      fold (\<lambda>position results.
              if \<not> pos_isActive position then results
              else AList.update (pos_id position)
                     (positionResult electionStatus (candidates_file st) (votes_file st) position)
                     results)
           (positions_file st) [])"

subsection \<open>Election state machine\<close>

datatype start_result = ElectionStarted election_status | AlreadyActive

datatype end_result = ElectionEnded election_status | NoActiveElection

text \<open>
  \<^verbatim>\<open>startElection(duration)\<close>, file-backed. The argument is \<open>None\<close> for null or
  undefined. The body never reads it: the new record takes
  \<^verbatim>\<open>electionStatus.duration || (24 * 60 * 60 * 1000)\<close>.
\<close>

definition startElection :: "db \<Rightarrow> int option \<Rightarrow> int \<Rightarrow> start_result \<times> db" where
  "startElection st duration_arg now =
     (let electionStatus = loadElectionStatus st in
      if isActive electionStatus then (AlreadyActive, st)
      else
        (let newStatus =
               \<lparr>isActive = True, startTime = Some now, endTime = None,
                duration = (if duration electionStatus = 0 then 24 * 60 * 60 * 1000
                            else duration electionStatus)\<rparr>
         in (ElectionStarted newStatus, saveElectionStatus st newStatus electionStatus)))"

definition endElection :: "db \<Rightarrow> int \<Rightarrow> end_result \<times> db" where
  "endElection st now =
     (let electionStatus = loadElectionStatus st in
      if \<not> isActive electionStatus then (NoActiveElection, st)
      else
        (let newStatus = electionStatus\<lparr>isActive := False, endTime := Some now\<rparr>
         in (ElectionEnded newStatus, saveElectionStatus st newStatus electionStatus)))"

record status_view =
  sv_isActive :: bool
  sv_startTime :: "int option"
  sv_endTime :: "int option"
  sv_timeRemaining :: "string option"

text \<open>
  \<^verbatim>\<open>getElectionStatus()\<close>. In the branch that formats the time \<open>remaining\<close> is
  positive, where \<^verbatim>\<open>Math.floor(a / b)\<close> is \<open>div\<close> and \<^verbatim>\<open>%\<close> is \<open>mod\<close>.
\<close>

definition getElectionStatus :: "db \<Rightarrow> int \<Rightarrow> status_view \<times> db" where
  "getElectionStatus st now =
     (let electionStatus = loadElectionStatus st in
      (case (if isActive electionStatus then orNull (startTime electionStatus) else None) of
         Some start \<Rightarrow>
           (let endT = start + duration electionStatus;
                remaining = endT - now
            in if remaining \<le> 0 then
                 (let newStatus = electionStatus\<lparr>isActive := False, endTime := Some now\<rparr>
                  in (\<lparr>sv_isActive = False, sv_startTime = startTime electionStatus,
                       sv_endTime = Some now, sv_timeRemaining = Some ''0h 0m''\<rparr>,
                      saveElectionStatus st newStatus electionStatus))
               else
                 (let hours = remaining div (60 * 60 * 1000);
                      minutes = (remaining mod (60 * 60 * 1000)) div (60 * 1000)
                  in (\<lparr>sv_isActive = isActive electionStatus,
                       sv_startTime = startTime electionStatus,
                       sv_endTime = endTime electionStatus,
                       sv_timeRemaining =
                         Some (toString hours @ ''h '' @ toString minutes @ ''m'')\<rparr>, st)))
       | None \<Rightarrow>
           (\<lparr>sv_isActive = isActive electionStatus, sv_startTime = startTime electionStatus,
             sv_endTime = endTime electionStatus, sv_timeRemaining = None\<rparr>, st)))"

subsection \<open>routes/voting.js: the submit handler\<close>

datatype submit_body = VotingNotActive | NoVotesSubmitted | SubmitResult submit_result

text \<open>
  The handler of \<^verbatim>\<open>POST /submit\<close> after the authentication middleware: HTTP status and
  body. \<open>votes\<close> is \<open>None\<close> when the request body has no \<^verbatim>\<open>votes\<close>. \<open>now1\<close> is the clock
  read by \<^verbatim>\<open>getElectionStatus\<close>, \<open>now2\<close> the one read by \<^verbatim>\<open>submitVote\<close>.
\<close>

definition submitRoute ::
  "db \<Rightarrow> string \<Rightarrow> string js_object option \<Rightarrow> int \<Rightarrow> int \<Rightarrow> string
     \<Rightarrow> (nat \<times> submit_body) \<times> db" where
  "submitRoute st memberId votes now1 now2 rnd =
     (let (status, st1) = getElectionStatus st now1 in
      if \<not> sv_isActive status then ((403, VotingNotActive), st1)
      else
        (case votes of
           None \<Rightarrow> ((400, NoVotesSubmitted), st1)
         | Some vs \<Rightarrow>
             if length (map fst vs) = 0 then ((400, NoVotesSubmitted), st1)
             else
               (let (result, st2) = submitVote st1 memberId vs now2 rnd in
                (case result of
                   VoteSubmitted voteId \<Rightarrow> ((200, SubmitResult result), st2)
                 | _ \<Rightarrow> ((400, SubmitResult result), st2)))))"

section \<open>services/voting.js (in-memory election status)\<close>

text \<open>
  The variant that keeps \<^verbatim>\<open>electionStatus\<close> in a module variable:
  \<^verbatim>\<open>duration: duration || (24 * 60 * 60 * 1000)\<close>.
\<close>

definition startElection_mem ::
  "election_status \<Rightarrow> int option \<Rightarrow> int \<Rightarrow> start_result \<times> election_status" where
  "startElection_mem electionStatus duration_arg now =
     (if isActive electionStatus then (AlreadyActive, electionStatus)
      else
        (let newStatus =
               \<lparr>isActive = True, startTime = Some now, endTime = None,
                duration = (case orNull duration_arg of
                              None \<Rightarrow> 24 * 60 * 60 * 1000
                            | Some d \<Rightarrow> d)\<rparr>
         in (ElectionStarted newStatus, newStatus)))"

section \<open>services/auth.js\<close>

record otp_data =
  otp :: string
  expiryTime :: int
  otp_memberId :: string
  attempts :: nat

datatype verify_result =
    NoActiveChallenge
  | ChallengeExpired
  | TooManyAttempts
  | CodeMismatch
  | MemberNotFound
  | Verified string string string bool "string option"

text \<open>
  \<^verbatim>\<open>verifyOTP(phoneNumber, otp)\<close> over the in-memory map \<^verbatim>\<open>activeOTPs\<close> and the store.
  \<^verbatim>\<open>otpData.attempts += 1\<close> mutates the entry held by the map, so the increment stays
  after a mismatch. \<open>sessionDuration\<close> is \<^verbatim>\<open>config.session.duration\<close>, \<open>sessionToken\<close> is
  \<^verbatim>\<open>security.generateSessionToken()\<close>. The result \<open>Verified\<close> carries the token, the
  member's id and name, \<^verbatim>\<open>hasVoted\<close> and \<^verbatim>\<open>voteId\<close>.
\<close>

definition verifyOTP ::
  "int \<Rightarrow> (string \<rightharpoonup> otp_data) \<times> db \<Rightarrow> string \<Rightarrow> string \<Rightarrow> int \<Rightarrow> string
     \<Rightarrow> verify_result \<times> (string \<rightharpoonup> otp_data) \<times> db" where
  "verifyOTP sessionDuration s phoneNumber code now sessionToken =
     (let activeOTPs = fst s; st = snd s in
      (case activeOTPs phoneNumber of
         None \<Rightarrow> (NoActiveChallenge, activeOTPs, st)
       | Some otpData \<Rightarrow>
           if now > expiryTime otpData
           then (ChallengeExpired, activeOTPs(phoneNumber := None), st)
           else
             (let otpData' = otpData\<lparr>attempts := attempts otpData + 1\<rparr>;
                  activeOTPs' = activeOTPs(phoneNumber \<mapsto> otpData')
              in if attempts otpData' \<ge> 5
                 then (TooManyAttempts, activeOTPs'(phoneNumber := None), st)
                 else if otp otpData' \<noteq> code then (CodeMismatch, activeOTPs', st)
                 else
                   (case fileDb_findBy (members_file st) member_id (otp_memberId otpData') of
                      None \<Rightarrow> (MemberNotFound, activeOTPs', st)
                    | Some member \<Rightarrow>
                        (let sessionRecord =
                               \<lparr>sess_id = sessionToken, sess_memberId = Some (member_id member),
                                sess_isAdmin = False, sess_createdAt = now,
                                sess_expiresAt = now + sessionDuration\<rparr>;
                             st' = st\<lparr>sessions_file :=
                                        fileDb_create (sessions_file st) sessionRecord\<rparr>;
                             vote = fileDb_findBy (votes_file st') vote_memberId (member_id member)
                         in (Verified sessionToken (member_id member) (member_name member)
                               (vote \<noteq> None) (map_option vote_id vote),
                             activeOTPs'(phoneNumber := None), st'))))))"

text \<open>
  \<^verbatim>\<open>endSession(sessionToken)\<close>: the token is \<open>None\<close> when the cookie is missing; the
  empty string is falsy as well. Returns the boolean of \<^verbatim>\<open>fileDb.remove\<close>.
\<close>

definition endSession :: "db \<Rightarrow> string option \<Rightarrow> bool \<times> db" where
  "endSession st sessionToken =
     (case sessionToken of
        None \<Rightarrow> (False, st)
      | Some token \<Rightarrow>
          if token = [] then (False, st)
          else
            (let (result, sessions) = fileDb_remove (sessions_file st) sess_id token
             in (result, st\<lparr>sessions_file := sessions\<rparr>)))"

text \<open>
  The handler of \<^verbatim>\<open>POST /logout\<close>: it awaits \<^verbatim>\<open>endSession\<close> only for a truthy cookie,
  drops the boolean and answers \<^verbatim>\<open>{success: true}\<close>.
\<close>

definition logoutRoute :: "db \<Rightarrow> string option \<Rightarrow> bool \<times> db" where
  "logoutRoute st sessionToken =
     (case sessionToken of
        None \<Rightarrow> (True, st)
      | Some token \<Rightarrow>
          if token = [] then (True, st)
          else (True, snd (endSession st sessionToken)))"

section \<open>Observations and operation sequences\<close>

text \<open>
  \<^verbatim>\<open>getDashboardData\<close> reports \<^verbatim>\<open>votes.length\<close> as the total; \<open>tallyOf\<close> reads one
  candidate's count out of the \<^verbatim>\<open>results\<close> object. \<open>atMostOneVote\<close> is the ledger
  invariant. \<open>step\<close> and \<open>run\<close> apply the operations the voting service exports one
  after the other, each call running from its first line to its return before the next
  begins; calls that overlap in time are not among these runs, they are the subject of
  \<open>resume\<close> and \<open>interleave\<close> below.
\<close>

definition totalVotes :: "db \<Rightarrow> nat" where
  "totalVotes st = length (votes_file st)"

definition tallyOf :: "position_result js_object \<Rightarrow> string \<Rightarrow> string \<Rightarrow> nat option" where
  "tallyOf results positionId candidateId =
     (case map_of results positionId of
        None \<Rightarrow> None
      | Some pr \<Rightarrow> map_option cr_votes (map_of (pr_candidates pr) candidateId))"

definition atMostOneVote :: "db \<Rightarrow> bool" where
  "atMostOneVote st = distinct (map vote_memberId (votes_file st))"

datatype operation =
    SubmitVote string "string js_object" int string
  | StartElection "int option" int
  | EndElection int
  | GetElectionStatus int
  | GetResults bool

fun step :: "db \<Rightarrow> operation \<Rightarrow> db" where
  "step st (SubmitVote memberId votes now rnd) = snd (submitVote st memberId votes now rnd)"
| "step st (StartElection duration_arg now) = snd (startElection st duration_arg now)"
| "step st (EndElection now) = snd (endElection st now)"
| "step st (GetElectionStatus now) = snd (getElectionStatus st now)"
| "step st (GetResults detailed) = st"

definition run :: "db \<Rightarrow> operation list \<Rightarrow> db" where
  "run st ops = fold (\<lambda>op s. step s op) ops st"

subsection \<open>Overlapping submissions\<close>

text \<open>
  \<^verbatim>\<open>submitVote\<close> is an \<^verbatim>\<open>async\<close> function: at every \<^verbatim>\<open>await\<close> the call is suspended and
  another request may run. A call in flight is the point where it waits together with
  the variables it holds: for the status file, for the lookup of the member's vote, for
  the positions, for the candidates, and, inside \<^verbatim>\<open>fileDb.create\<close>, for the read of the
  votes file and for the write of the array it has pushed the record onto.
\<close>

datatype submit_task =
    AwaitStatus string "string js_object" int string
  | AwaitFindBy string "string js_object" int string
  | AwaitPositions string "string js_object" int string
  | AwaitCandidates string "string js_object" int string
  | AwaitCreateRead vote
  | AwaitCreateWrite "vote list" vote
  | Returned submit_result

text \<open>
  \<open>resume\<close> runs a suspended call from the \<^verbatim>\<open>await\<close> it waits at to the next one, or to
  its \<^verbatim>\<open>return\<close>: the same tests in the same order as \<open>submitVote\<close>, each on the store as
  it is when the call is resumed.
\<close>

fun resume :: "db \<Rightarrow> submit_task \<Rightarrow> submit_task \<times> db" where
  "resume st (AwaitStatus memberId votes now rnd) =
     (if \<not> isActive (loadElectionStatus st) then (Returned ElectionNotActive, st)
      else (AwaitFindBy memberId votes now rnd, st))"
| "resume st (AwaitFindBy memberId votes now rnd) =
     (case fileDb_findBy (votes_file st) vote_memberId memberId of
        Some existingVote \<Rightarrow> (Returned (AlreadyVoted (vote_id existingVote)), st)
      | None \<Rightarrow> (AwaitPositions memberId votes now rnd, st))"
| "resume st (AwaitPositions memberId votes now rnd) =
     (let activePositionIds = map pos_id (filter pos_isActive (positions_file st)) in
      (case find (\<lambda>positionId. positionId \<notin> set activePositionIds) (map fst votes) of
         Some positionId \<Rightarrow> (Returned (InvalidPosition positionId), st)
       | None \<Rightarrow> (AwaitCandidates memberId votes now rnd, st)))"
| "resume st (AwaitCandidates memberId votes now rnd) =
     (case find (\<lambda>(positionId, candidateId).
                   validCandidate (candidates_file st) positionId candidateId = None) votes of
        Some (positionId, candidateId) \<Rightarrow> (Returned (InvalidCandidate positionId), st)
      | None \<Rightarrow>
          (AwaitCreateRead \<lparr>vote_id = mkVoteId now rnd, vote_memberId = memberId,
                             vote_timestamp = now, vote_votes = votes\<rparr>, st))"
| "resume st (AwaitCreateRead voteRecord) =
     (AwaitCreateWrite (votes_file st @ [voteRecord]) voteRecord, st)"
| "resume st (AwaitCreateWrite records voteRecord) =
     (Returned (VoteSubmitted (vote_id voteRecord)), st\<lparr>votes_file := records\<rparr>)"
| "resume st (Returned result) = (Returned result, st)"

text \<open>
  A schedule names, step by step, which of the calls in flight is resumed next.
\<close>

fun interleave :: "db \<Rightarrow> submit_task list \<Rightarrow> nat list \<Rightarrow> db \<times> submit_task list" where
  "interleave st tasks [] = (st, tasks)"
| "interleave st tasks (i # schedule) =
     (if i < length tasks
      then (let (task, st') = resume st (tasks ! i)
            in interleave st' (tasks[i := task]) schedule)
      else interleave st tasks schedule)"

text \<open>A bound on every tally of a \<^verbatim>\<open>positionCandidates\<close> object.\<close>

definition allAtMost :: "candidate_result js_object \<Rightarrow> nat \<Rightarrow> bool" where
  "allAtMost xs n = (\<forall>(k, c) \<in> set xs. cr_votes c \<le> n)"

text \<open>
  A run of \<^verbatim>\<open>verifyOTP\<close> calls for one phone number, each with its submitted code, its
  clock reading and the token the generator would hand out; the results in call order.
\<close>

fun verifySeq ::
  "int \<Rightarrow> (string \<rightharpoonup> otp_data) \<times> db \<Rightarrow> string \<Rightarrow> (string \<times> int \<times> string) list
     \<Rightarrow> verify_result list \<times> (string \<rightharpoonup> otp_data) \<times> db" where
  "verifySeq sessionDuration s phoneNumber [] = ([], s)"
| "verifySeq sessionDuration s phoneNumber ((code, now, sessionToken) # calls) =
     (let (r, s') = verifyOTP sessionDuration s phoneNumber code now sessionToken;
          (rs, s'') = verifySeq sessionDuration s' phoneNumber calls
      in (r # rs, s''))"

section \<open>Example stores\<close>

text \<open>
  One position with three active candidates; a store is built from a status record and a
  list of votes. The spec's tie scenario is \<open>ex_tie_votes\<close>: three votes each for two
  candidates and two for the third.
\<close>

definition ex_position :: position where
  "ex_position = \<lparr>pos_id = ''position_1'', pos_name = ''President'', pos_isActive = True\<rparr>"

definition ex_candidates :: "candidate list" where
  "ex_candidates =
     [\<lparr>cand_id = ''candidate_a'', cand_name = ''Ada'', cand_positionId = ''position_1'',
        cand_isActive = True\<rparr>,
      \<lparr>cand_id = ''candidate_b'', cand_name = ''Bob'', cand_positionId = ''position_1'',
        cand_isActive = True\<rparr>,
      \<lparr>cand_id = ''candidate_c'', cand_name = ''Cy'', cand_positionId = ''position_1'',
        cand_isActive = True\<rparr>]"

definition ex_vote :: "string \<Rightarrow> string \<Rightarrow> vote" where
  "ex_vote m c = \<lparr>vote_id = ''vote_1500_'' @ m, vote_memberId = m, vote_timestamp = 1500,
                  vote_votes = [(''position_1'', c)]\<rparr>"

definition ex_store :: "election_status \<Rightarrow> vote list \<Rightarrow> db" where
  "ex_store status votes =
     \<lparr>electionStatus_file = [status], positions_file = [ex_position],
      candidates_file = ex_candidates, votes_file = votes,
      sessions_file = [], members_file = []\<rparr>"

definition ex_active :: election_status where
  "ex_active = \<lparr>isActive = True, startTime = Some 1000, endTime = None, duration = 1000\<rparr>"

definition ex_ended :: election_status where
  "ex_ended = \<lparr>isActive = False, startTime = Some 1000, endTime = Some 2000, duration = 1000\<rparr>"

definition ex_notStarted :: election_status where
  "ex_notStarted = \<lparr>isActive = False, startTime = None, endTime = None, duration = 86400000\<rparr>"

definition ex_long :: election_status where
  "ex_long = \<lparr>isActive = True, startTime = Some 1000, endTime = None, duration = 9000000\<rparr>"

definition ex_tie_votes :: "vote list" where
  "ex_tie_votes =
     [ex_vote ''member_1'' ''candidate_a'', ex_vote ''member_2'' ''candidate_b'',
      ex_vote ''member_3'' ''candidate_a'', ex_vote ''member_4'' ''candidate_b'',
      ex_vote ''member_5'' ''candidate_c'', ex_vote ''member_6'' ''candidate_a'',
      ex_vote ''member_7'' ''candidate_b'', ex_vote ''member_8'' ''candidate_c'']"

definition ex_tie_result :: position_result where
  "ex_tie_result =
     \<lparr>pr_id = ''position_1'', pr_name = ''President'', pr_status = Ended,
      pr_candidates =
        [(''candidate_a'', \<lparr>cr_id = ''candidate_a'', cr_name = ''Ada'', cr_votes = 3, cr_isWinner = True\<rparr>),
         (''candidate_b'', \<lparr>cr_id = ''candidate_b'', cr_name = ''Bob'', cr_votes = 3, cr_isWinner = True\<rparr>),
         (''candidate_c'', \<lparr>cr_id = ''candidate_c'', cr_name = ''Cy'', cr_votes = 2, cr_isWinner = False\<rparr>)]\<rparr>"

definition ex_member :: member where
  "ex_member = \<lparr>member_id = ''member_1'', member_name = ''Mia'', member_phoneNumber = ''+15550100''\<rparr>"

definition ex_otps :: "string \<rightharpoonup> otp_data" where
  "ex_otps = [''+15550100'' \<mapsto>
     \<lparr>otp = ''123456'', expiryTime = 600000, otp_memberId = ''member_1'', attempts = 0\<rparr>]"

definition ex_auth_db :: db where
  "ex_auth_db = \<lparr>electionStatus_file = [], positions_file = [], candidates_file = [],
     votes_file = [],
     sessions_file = [\<lparr>sess_id = ''token_a'', sess_memberId = Some ''member_1'',
                        sess_isAdmin = False, sess_createdAt = 1000, sess_expiresAt = 1801000\<rparr>],
     members_file = [ex_member]\<rparr>"

section \<open>Properties of vote submission\<close>

lemma loadElectionStatus_votes_file [simp]:
  "loadElectionStatus (st\<lparr>votes_file := vs\<rparr>) = loadElectionStatus st"
  by (simp add: loadElectionStatus_def)

lemma statusLabel_load:
  "statusLabel (loadElectionStatus st) = InProgress \<longleftrightarrow> isActive (loadElectionStatus st)"
  by (simp add: statusLabel_def)

lemma submitVote_not_active:
  "\<not> isActive (loadElectionStatus st) \<Longrightarrow> submitVote st m votes now rnd = (ElectionNotActive, st)"
  by (simp add: submitVote_def)

lemma submitVote_success_active:
  "fst (submitVote st m votes now rnd) = VoteSubmitted vid \<Longrightarrow> isActive (loadElectionStatus st)"
  by (auto simp: submitVote_def Let_def split: if_splits)

lemma submitVote_already_voted:
  "fileDb_findBy (votes_file st) vote_memberId m = Some v \<Longrightarrow>
   submitVote st m votes now rnd =
     (if isActive (loadElectionStatus st) then AlreadyVoted (vote_id v) else ElectionNotActive, st)"
  by (simp add: submitVote_def)

lemma submitVote_empty:
  "isActive (loadElectionStatus st) \<Longrightarrow> fileDb_findBy (votes_file st) vote_memberId m = None \<Longrightarrow>
   submitVote st m [] now rnd =
     (VoteSubmitted (mkVoteId now rnd),
      st\<lparr>votes_file := votes_file st @
          [\<lparr>vote_id = mkVoteId now rnd, vote_memberId = m, vote_timestamp = now, vote_votes = []\<rparr>]\<rparr>)"
  by (simp add: submitVote_def fileDb_create_def Let_def)

lemma submitVote_votes_file:
  "votes_file (snd (submitVote st m votes now rnd)) = votes_file st \<or>
   (fileDb_findBy (votes_file st) vote_memberId m = None \<and>
    votes_file (snd (submitVote st m votes now rnd)) = votes_file st @
      [\<lparr>vote_id = mkVoteId now rnd, vote_memberId = m, vote_timestamp = now, vote_votes = votes\<rparr>])"
  by (auto simp: submitVote_def Let_def fileDb_create_def split: option.splits)

lemma findBy_None_iff:
  "fileDb_findBy records field v = None \<longleftrightarrow> v \<notin> field ` set records"
  by (auto simp: fileDb_findBy_def find_None_iff)

lemma findBy_append:
  "fileDb_findBy (xs @ [x]) field v =
     (case fileDb_findBy xs field v of Some r \<Rightarrow> Some r | None \<Rightarrow> if field x = v then Some x else None)"
  by (induction xs) (auto simp: fileDb_findBy_def)

text \<open>
  Calls that run to completion one after another keep the invariant: an operation either
  leaves the votes file alone or appends a record for a member who has none.
\<close>

lemma step_votes_file:
  "votes_file (step st op) = votes_file st \<or>
   (\<exists>m votes now rnd. fileDb_findBy (votes_file st) vote_memberId m = None \<and>
      votes_file (step st op) = votes_file st @
        [\<lparr>vote_id = mkVoteId now rnd, vote_memberId = m, vote_timestamp = now, vote_votes = votes\<rparr>])"
proof (cases op)
  case (SubmitVote m votes now rnd)
  then show ?thesis using submitVote_votes_file [of st m votes now rnd] by auto
next
  case (StartElection d now)
  then show ?thesis by (simp add: startElection_def Let_def saveElectionStatus_def)
next
  case (EndElection now)
  then show ?thesis by (simp add: endElection_def Let_def saveElectionStatus_def)
next
  case (GetElectionStatus now)
  then show ?thesis
    by (simp add: getElectionStatus_def Let_def saveElectionStatus_def split: option.splits)
next
  case (GetResults d)
  then show ?thesis by simp
qed

lemma step_atMostOneVote: "atMostOneVote st \<Longrightarrow> atMostOneVote (step st op)"
  using step_votes_file [of st op]
  by (auto simp: atMostOneVote_def findBy_None_iff)

lemma run_atMostOneVote: "atMostOneVote st \<Longrightarrow> atMostOneVote (run st ops)"
  unfolding run_def
  by (induction ops arbitrary: st) (simp_all add: step_atMostOneVote)

text \<open>The invariant in counting form: no member identifier occurs on two Vote records.\<close>

lemma distinct_map_count:
  "distinct (map f xs) \<longleftrightarrow> (\<forall>y. length (filter (\<lambda>x. f x = y) xs) \<le> 1)"
proof (induction xs)
  case Nil
  show ?case by simp
next
  case (Cons x xs)
  have none: "f x \<notin> f ` set xs \<longleftrightarrow> filter (\<lambda>z. f z = f x) xs = []"
    unfolding filter_empty_conv image_iff by metis
  show ?case
  proof
    assume d: "distinct (map f (x # xs))"
    then have "filter (\<lambda>z. f z = f x) xs = []" using none by simp
    moreover from d Cons.IH have "\<forall>y. length (filter (\<lambda>x. f x = y) xs) \<le> 1" by simp
    ultimately show "\<forall>y. length (filter (\<lambda>z. f z = y) (x # xs)) \<le> 1" by auto
  next
    assume a: "\<forall>y. length (filter (\<lambda>z. f z = y) (x # xs)) \<le> 1"
    then have "length (filter (\<lambda>z. f z = f x) (x # xs)) \<le> 1" by blast
    then have "filter (\<lambda>z. f z = f x) xs = []" by simp
    moreover have "\<forall>y. length (filter (\<lambda>z. f z = y) xs) \<le> 1"
    proof
      fix y
      from a have "length (filter (\<lambda>z. f z = y) (x # xs)) \<le> 1" by blast
      then show "length (filter (\<lambda>z. f z = y) xs) \<le> 1" by (simp split: if_splits)
    qed
    ultimately show "distinct (map f (x # xs))" using none Cons.IH by simp
  qed
qed

lemma atMostOneVote_iff:
  "atMostOneVote st \<longleftrightarrow>
     (\<forall>memberId. length (filter (\<lambda>v. vote_memberId v = memberId) (votes_file st)) \<le> 1)"
  unfolding atMostOneVote_def by (rule distinct_map_count)

text \<open>
  A call that is resumed six times with no other call in between is \<open>submitVote\<close>.
\<close>

lemma submitVote_alone:
  "interleave st [AwaitStatus memberId votes now rnd] [0, 0, 0, 0, 0, 0] =
     (snd (submitVote st memberId votes now rnd),
      [Returned (fst (submitVote st memberId votes now rnd))])"
  by (auto simp: submitVote_def Let_def fileDb_create_def split: option.splits prod.splits)

text \<open>
  C1: the at-most-one-vote invariant, on two overlapping submissions of one member at an
  active election with an empty votes file. Both calls finish the duplicate lookup
  before either reaches \<^verbatim>\<open>fileDb.create\<close>; both find no record, both validate, both
  append and both return success. The votes file ends with two Vote records of
  \<^verbatim>\<open>member_1\<close>: the second call was made for a member who, by the time it appends,
  already has a Vote record, and it neither fails with \<open>AlreadyVoted\<close> nor appends
  nothing.
\<close>

theorem overlapping_submissions_store_two_votes:
  "interleave (ex_store ex_active [])
     [AwaitStatus ''member_1'' [(''position_1'', ''candidate_a'')] 1600 ''abcdefgh'',
      AwaitStatus ''member_1'' [(''position_1'', ''candidate_b'')] 1601 ''ijklmnop'']
     [0, 0, 1, 1, 0, 0, 0, 0, 1, 1, 1, 1]
   = (ex_store ex_active
        [\<lparr>vote_id = mkVoteId 1600 ''abcdefgh'', vote_memberId = ''member_1'',
          vote_timestamp = 1600, vote_votes = [(''position_1'', ''candidate_a'')]\<rparr>,
         \<lparr>vote_id = mkVoteId 1601 ''ijklmnop'', vote_memberId = ''member_1'',
          vote_timestamp = 1601, vote_votes = [(''position_1'', ''candidate_b'')]\<rparr>],
      [Returned (VoteSubmitted (mkVoteId 1600 ''abcdefgh'')),
       Returned (VoteSubmitted (mkVoteId 1601 ''ijklmnop''))])
   \<and> \<not> atMostOneVote (ex_store ex_active
        [\<lparr>vote_id = mkVoteId 1600 ''abcdefgh'', vote_memberId = ''member_1'',
          vote_timestamp = 1600, vote_votes = [(''position_1'', ''candidate_a'')]\<rparr>,
         \<lparr>vote_id = mkVoteId 1601 ''ijklmnop'', vote_memberId = ''member_1'',
          vote_timestamp = 1601, vote_votes = [(''position_1'', ''candidate_b'')]\<rparr>])"
  by (simp add: loadElectionStatus_def ex_store_def ex_active_def orNull_def
      fileDb_findBy_def ex_position_def ex_candidates_def validCandidate_def Let_def
      atMostOneVote_def image_iff)

subsection \<open>The election gate\<close>

lemma getElectionStatus_elapsed_view:
  "isActive (loadElectionStatus st) \<Longrightarrow> startTime (loadElectionStatus st) = Some start \<Longrightarrow>
   start + duration (loadElectionStatus st) \<le> now \<Longrightarrow>
   fst (getElectionStatus st now) =
     \<lparr>sv_isActive = False, sv_startTime = Some start, sv_endTime = Some now,
      sv_timeRemaining = Some ''0h 0m''\<rparr>"
  by (auto simp: getElectionStatus_def Let_def orNull_def loadElectionStatus_def defaultElectionStatus_def
      split: list.splits option.splits if_splits)

lemma getElectionStatus_votes_file [simp]:
  "votes_file (snd (getElectionStatus st now)) = votes_file st"
  by (simp add: getElectionStatus_def Let_def saveElectionStatus_def split: option.splits)

lemma submitRoute_elapsed:
  assumes "isActive (loadElectionStatus st)" "startTime (loadElectionStatus st) = Some start"
    "start + duration (loadElectionStatus st) \<le> now1"
  shows "fst (submitRoute st m votes now1 now2 rnd) = (403, VotingNotActive)"
    and "votes_file (snd (submitRoute st m votes now1 now2 rnd)) = votes_file st"
proof -
  obtain view st1 where g: "getElectionStatus st now1 = (view, st1)" by (cases "getElectionStatus st now1")
  from getElectionStatus_elapsed_view [OF assms] g have "\<not> sv_isActive view" by simp
  with g show "fst (submitRoute st m votes now1 now2 rnd) = (403, VotingNotActive)"
    by (simp add: submitRoute_def)
  from g have "votes_file st1 = votes_file st"
    using getElectionStatus_votes_file [of st now1] by simp
  with g \<open>\<not> sv_isActive view\<close> show "votes_file (snd (submitRoute st m votes now1 now2 rnd)) = votes_file st"
    by (simp add: submitRoute_def)
qed

text \<open>
  C2, as stated, at an election still flagged active whose duration has elapsed
  (\<open>startTime = 1000\<close>, \<open>duration = 1000\<close>, clock at \<open>5000\<close>): \<^verbatim>\<open>submitVote\<close> reads the
  stored flag only and accepts the vote.
\<close>

theorem election_gate_counterexample:
  "isActive (loadElectionStatus (ex_store ex_active []))
   \<and> startTime (loadElectionStatus (ex_store ex_active [])) = Some 1000
   \<and> duration (loadElectionStatus (ex_store ex_active [])) = 1000
   \<and> 1000 + 1000 < (5000::int)
   \<and> fst (submitVote (ex_store ex_active []) ''member_1''
            [(''position_1'', ''candidate_a'')] 5000 ''abcdefgh'')
       = VoteSubmitted (mkVoteId 5000 ''abcdefgh'')"
  by (simp add: submitVote_def loadElectionStatus_def ex_store_def ex_active_def orNull_def
        fileDb_findBy_def ex_position_def ex_candidates_def validCandidate_def Let_def)

text \<open>
  C2 (amended): \<^verbatim>\<open>submitVote\<close> fails with \<open>ElectionNotActive\<close>, changing nothing,
  whenever the stored status is Not Started or Ended, and can succeed only while the
  stored status is In Progress. It does not compare the clock with
  \<open>startTime + duration\<close>; an election still flagged active whose duration has elapsed is
  turned away by the \<^verbatim>\<open>POST /submit\<close> handler, whose \<^verbatim>\<open>getElectionStatus\<close> call reports
  the election closed before \<^verbatim>\<open>submitVote\<close> is reached, and no vote is appended.
\<close>

theorem election_gate:
  "(statusLabel (loadElectionStatus st) \<noteq> InProgress \<longrightarrow>
      submitVote st m votes now rnd = (ElectionNotActive, st))
   \<and> (fst (submitVote st m votes now rnd) = VoteSubmitted vid \<longrightarrow>
      statusLabel (loadElectionStatus st) = InProgress)
   \<and> (isActive (loadElectionStatus st) \<and> startTime (loadElectionStatus st) = Some start
        \<and> start + duration (loadElectionStatus st) \<le> now1 \<longrightarrow>
      fst (submitRoute st m (Some votes) now1 now2 rnd) = (403, VotingNotActive)
      \<and> votes_file (snd (submitRoute st m (Some votes) now1 now2 rnd)) = votes_file st)"
  using submitVote_not_active [of st m votes now rnd]
    submitVote_success_active [of st m votes now rnd vid]
    submitRoute_elapsed [of st start now1 m "Some votes" now2 rnd]
  by (simp add: statusLabel_load)

theorem election_gate_witness:
  "statusLabel (loadElectionStatus (ex_store ex_ended [])) \<noteq> InProgress
   \<and> submitVote (ex_store ex_ended []) ''member_1'' [(''position_1'', ''candidate_a'')] 3000 ''abcdefgh''
       = (ElectionNotActive, ex_store ex_ended [])
   \<and> fst (submitVote (ex_store ex_active []) ''member_1'' [(''position_1'', ''candidate_a'')]
            1500 ''abcdefgh'') = VoteSubmitted (mkVoteId 1500 ''abcdefgh'')
   \<and> statusLabel (loadElectionStatus (ex_store ex_active [])) = InProgress
   \<and> isActive (loadElectionStatus (ex_store ex_active []))
   \<and> startTime (loadElectionStatus (ex_store ex_active [])) = Some 1000
   \<and> 1000 + duration (loadElectionStatus (ex_store ex_active [])) \<le> 5000
   \<and> fst (submitRoute (ex_store ex_active []) ''member_1''
            (Some [(''position_1'', ''candidate_a'')]) 5000 5001 ''abcdefgh'')
       = (403, VotingNotActive)
   \<and> votes_file (snd (submitRoute (ex_store ex_active []) ''member_1''
            (Some [(''position_1'', ''candidate_a'')]) 5000 5001 ''abcdefgh'')) = []"
proof -
  have e: "statusLabel (loadElectionStatus (ex_store ex_ended [])) \<noteq> InProgress"
    by (simp add: statusLabel_def loadElectionStatus_def ex_store_def ex_ended_def)
  have s: "fst (submitVote (ex_store ex_active []) ''member_1'' [(''position_1'', ''candidate_a'')]
            1500 ''abcdefgh'') = VoteSubmitted (mkVoteId 1500 ''abcdefgh'')"
    by (simp add: submitVote_def loadElectionStatus_def ex_store_def ex_active_def orNull_def
        fileDb_findBy_def ex_position_def ex_candidates_def validCandidate_def Let_def)
  have a: "isActive (loadElectionStatus (ex_store ex_active []))
     \<and> startTime (loadElectionStatus (ex_store ex_active [])) = Some 1000
     \<and> 1000 + duration (loadElectionStatus (ex_store ex_active [])) \<le> 5000"
    by (simp add: loadElectionStatus_def ex_store_def ex_active_def orNull_def)
  have v: "votes_file (ex_store ex_active []) = []" by (simp add: ex_store_def)
  show ?thesis
    using e s a v
      election_gate [of "ex_store ex_ended []" "''member_1''" "[(''position_1'', ''candidate_a'')]"
        3000 "''abcdefgh''" "mkVoteId 3000 ''abcdefgh''" 0 0 0]
      election_gate [of "ex_store ex_active []" "''member_1''" "[(''position_1'', ''candidate_a'')]"
        1500 "''abcdefgh''" "mkVoteId 1500 ''abcdefgh''" 1000 5000 5001]
    by simp
qed

section \<open>Properties of the election state machine\<close>

lemma saveElectionStatus_head:
  "electionStatus_file st = status # rest \<Longrightarrow> duration status = duration oldStatus \<Longrightarrow>
   saveElectionStatus st newStatus oldStatus = st\<lparr>electionStatus_file := newStatus # rest\<rparr>"
  by (simp add: saveElectionStatus_def fileDb_update_def)

lemma loadElectionStatus_head:
  "electionStatus_file st = status # rest \<Longrightarrow>
   loadElectionStatus st =
     \<lparr>isActive = isActive status, startTime = orNull (startTime status),
      endTime = orNull (endTime status),
      duration = (if duration status = 0 then 86400000 else duration status)\<rparr>"
  by (simp add: loadElectionStatus_def)







text \<open>
  On an empty status file \<^verbatim>\<open>fileDb.update\<close> finds no record and writes nothing, so the
  started status is returned but not stored.
\<close>

lemma startElection_empty_file:
  "electionStatus_file st = [] \<Longrightarrow>
   startElection st d now =
     (ElectionStarted \<lparr>isActive = True, startTime = Some now, endTime = None,
                       duration = 86400000\<rparr>, st)"
  by (simp add: startElection_def Let_def loadElectionStatus_def defaultElectionStatus_def
      saveElectionStatus_def fileDb_update_def)

text \<open>The file-backed \<^verbatim>\<open>startElection\<close> gives the same answer for every argument.\<close>

lemma startElection_argument_unused: "startElection st d now = startElection st d' now"
  by (simp add: startElection_def)

text \<open>
  C5: \<^verbatim>\<open>startElection(duration)\<close> on a not-started election with a stored duration of 24
  hours, called with one hour. The file-backed variant keeps 24 hours; the in-memory
  variant stores the hour it was given.
\<close>

theorem startElection_ignores_duration:
  "startElection (ex_store ex_notStarted []) (Some 3600000) 5000 =
     (ElectionStarted \<lparr>isActive = True, startTime = Some 5000, endTime = None, duration = 86400000\<rparr>,
      ex_store \<lparr>isActive = True, startTime = Some 5000, endTime = None, duration = 86400000\<rparr> [])
   \<and> startElection_mem ex_notStarted (Some 3600000) 5000 =
     (ElectionStarted \<lparr>isActive = True, startTime = Some 5000, endTime = None, duration = 3600000\<rparr>,
      \<lparr>isActive = True, startTime = Some 5000, endTime = None, duration = 3600000\<rparr>)"
  by (simp add: startElection_def startElection_mem_def Let_def loadElectionStatus_def ex_store_def
      ex_notStarted_def orNull_def saveElectionStatus_def fileDb_update_def)

lemma getElectionStatus_closes:
  assumes "electionStatus_file st = status # rest" "isActive status"
    "startTime status = Some start" "start \<noteq> 0" "duration status \<noteq> 0"
    "start + duration status \<le> now"
  shows "getElectionStatus st now =
     (\<lparr>sv_isActive = False, sv_startTime = Some start, sv_endTime = Some now,
       sv_timeRemaining = Some ''0h 0m''\<rparr>,
      st\<lparr>electionStatus_file := status\<lparr>isActive := False, endTime := Some now\<rparr> # rest\<rparr>)"
  using assms
  by (simp add: getElectionStatus_def Let_def loadElectionStatus_head orNull_def
      saveElectionStatus_head)

lemma getElectionStatus_remaining:
  assumes "electionStatus_file st = status # rest" "isActive status"
    "startTime status = Some start" "start \<noteq> 0" "duration status \<noteq> 0"
    "now < start + duration status"
  shows "getElectionStatus st now =
     (\<lparr>sv_isActive = True, sv_startTime = Some start, sv_endTime = orNull (endTime status),
       sv_timeRemaining =
         Some (toString ((start + duration status - now) div 3600000) @ ''h '' @
               toString ((start + duration status - now) mod 3600000 div 60000) @ ''m'')\<rparr>, st)"
  using assms
  by (simp add: getElectionStatus_def Let_def loadElectionStatus_head orNull_def)

text \<open>
  C7: lazy auto-close. The stored record is active with a start time and a duration. A
  status read at or after \<open>startTime + duration\<close> answers inactive with \<open>endTime = now\<close> and
  \<^verbatim>\<open>0h 0m\<close>, and writes \<open>isActive = false\<close>, \<open>endTime = now\<close> to the record, with no call of
  \<^verbatim>\<open>endElection\<close>. A read before that instant leaves the store as it is and answers active
  with the remaining time floor-divided into hours and minutes.
\<close>

theorem lazy_auto_close:
  assumes "electionStatus_file st = status # rest" and "isActive status"
    and "startTime status = Some start" and "start \<noteq> 0" and "duration status \<noteq> 0"
  shows "(start + duration status \<le> now \<longrightarrow>
            getElectionStatus st now =
              (\<lparr>sv_isActive = False, sv_startTime = Some start, sv_endTime = Some now,
                sv_timeRemaining = Some ''0h 0m''\<rparr>,
               st\<lparr>electionStatus_file :=
                    status\<lparr>isActive := False, endTime := Some now\<rparr> # rest\<rparr>))
       \<and> (now < start + duration status \<longrightarrow>
            getElectionStatus st now =
              (\<lparr>sv_isActive = True, sv_startTime = Some start,
                sv_endTime = orNull (endTime status),
                sv_timeRemaining =
                  Some (toString ((start + duration status - now) div 3600000) @ ''h '' @
                        toString ((start + duration status - now) mod 3600000 div 60000) @
                        ''m'')\<rparr>, st))"
  using getElectionStatus_closes [OF assms] getElectionStatus_remaining [OF assms] by blast

theorem lazy_auto_close_witness:
  "electionStatus_file (ex_store ex_active []) = [ex_active] \<and> isActive ex_active
   \<and> startTime ex_active = Some 1000 \<and> (1000::int) \<noteq> 0 \<and> duration ex_active = 1000
   \<and> getElectionStatus (ex_store ex_active []) 2001 =
       (\<lparr>sv_isActive = False, sv_startTime = Some 1000, sv_endTime = Some 2001,
         sv_timeRemaining = Some ''0h 0m''\<rparr>,
        ex_store \<lparr>isActive = False, startTime = Some 1000, endTime = Some 2001, duration = 1000\<rparr> [])
   \<and> getElectionStatus (ex_store ex_long []) 1001 =
       (\<lparr>sv_isActive = True, sv_startTime = Some 1000, sv_endTime = None,
         sv_timeRemaining = Some ''2h 29m''\<rparr>, ex_store ex_long [])"
proof -
  have a: "electionStatus_file (ex_store ex_active []) = [ex_active]" "isActive ex_active"
    "startTime ex_active = Some 1000" "(1000::int) \<noteq> 0" "duration ex_active \<noteq> 0"
    by (simp_all add: ex_store_def ex_active_def)
  have l: "electionStatus_file (ex_store ex_long []) = [ex_long]" "isActive ex_long"
    "startTime ex_long = Some 1000" "(1000::int) \<noteq> 0" "duration ex_long \<noteq> 0"
    by (simp_all add: ex_store_def ex_long_def)
  show ?thesis
    using lazy_auto_close [OF a, of 2001] lazy_auto_close [OF l, of 1001] a l
    by (simp add: ex_store_def ex_active_def ex_long_def toString_def decimal.simps digit_def orNull_def)
qed

section \<open>Properties of tabulation\<close>

lemma submitVote_success:
  assumes "submitVote st m votes now rnd = (VoteSubmitted vid, st')"
  shows "isActive (loadElectionStatus st)"
    and "fileDb_findBy (votes_file st) vote_memberId m = None"
    and "\<forall>(positionId, candidateId) \<in> set votes.
           (\<exists>p \<in> set (positions_file st). pos_isActive p \<and> pos_id p = positionId)
           \<and> validCandidate (candidates_file st) positionId candidateId \<noteq> None"
    and "vid = mkVoteId now rnd"
    and "st' = st\<lparr>votes_file := votes_file st @
            [\<lparr>vote_id = vid, vote_memberId = m, vote_timestamp = now, vote_votes = votes\<rparr>]\<rparr>"
  using assms
  by (auto simp: submitVote_def Let_def fileDb_create_def find_None_iff
      split: if_splits option.splits prod.splits) force

lemma map_of_bump:
  "map_of (map (\<lambda>(k, c). if k = x then (k, g c) else (k, c)) pc) y =
     (if y = x then map_option g (map_of pc y) else map_of pc y)"
  by (induction pc) auto

lemma countVote_keys: "map fst (countVote p v pc) = map fst pc"
  by (auto simp: countVote_def split: option.splits prod.splits)

lemma fold_countVote_keys: "map fst (fold (countVote p) vs pc) = map fst pc"
  by (induction vs arbitrary: pc) (simp_all add: countVote_keys)

lemma markWinners_keys: "map fst (markWinners ws pc) = map fst pc"
  unfolding markWinners_def
  by (induction ws arbitrary: pc) (auto split: prod.splits)

lemma markWinners_votes:
  "map_option cr_votes (map_of (markWinners ws pc) y) = map_option cr_votes (map_of pc y)"
  unfolding markWinners_def
proof (induction ws arbitrary: pc)
  case Nil
  show ?case by simp
next
  case (Cons w ws)
  show ?case
    by (simp add: Cons.IH map_of_bump option.map_comp comp_def)
qed

lemma countVote_votes:
  "map_option cr_votes (map_of (countVote p v pc) y) =
     map_option (\<lambda>n. if map_of (vote_votes v) (pos_id p) = Some y \<and> y \<noteq> [] then n + 1 else n)
       (map_option cr_votes (map_of pc y))"
  by (cases "map_of pc y")
     (auto simp: countVote_def map_of_bump option.map_comp comp_def split: option.splits)

lemma positionResult_votes_snoc:
  "map_option cr_votes (map_of (pr_candidates (positionResult es cs (vs @ [v]) p)) y) =
     map_option (\<lambda>n. if map_of (vote_votes v) (pos_id p) = Some y \<and> y \<noteq> [] then n + 1 else n)
       (map_option cr_votes (map_of (pr_candidates (positionResult es cs vs p)) y))"
  by (simp add: positionResult_def Let_def markWinners_votes countVote_votes)

lemma find_snoc:
  "find P (xs @ [x]) = (case find P xs of None \<Rightarrow> if P x then Some x else None | Some y \<Rightarrow> Some y)"
  by (induction xs) auto

lemma results_lookup:
  "map_of (fold (\<lambda>position results.
              if \<not> pos_isActive position then results
              else AList.update (pos_id position) (R position) results) ps acc) pid =
     (case find (\<lambda>p. pos_isActive p \<and> pos_id p = pid) (rev ps) of
        None \<Rightarrow> map_of acc pid
      | Some p \<Rightarrow> Some (R p))"
proof (induction ps arbitrary: acc)
  case Nil
  show ?case by simp
next
  case (Cons a ps)
  show ?case
    by (auto simp: Cons.IH AList.update_conv' find_snoc split: option.splits)
qed

lemma getResults_lookup:
  "map_of (getResults st d) pid =
     map_option (positionResult (loadElectionStatus st) (candidates_file st) (votes_file st))
       (find (\<lambda>p. pos_isActive p \<and> pos_id p = pid) (rev (positions_file st)))"
  by (simp add: getResults_def Let_def results_lookup split: option.splits)

lemma tallyOf_getResults:
  "tallyOf (getResults st d) pid y =
     (case find (\<lambda>p. pos_isActive p \<and> pos_id p = pid) (rev (positions_file st)) of
        None \<Rightarrow> None
      | Some p \<Rightarrow> map_option cr_votes (map_of (pr_candidates
          (positionResult (loadElectionStatus st) (candidates_file st) (votes_file st) p)) y))"
  by (simp add: tallyOf_def getResults_lookup split: option.splits)

lemma tallyOf_after_vote:
  "tallyOf (getResults (st\<lparr>votes_file := votes_file st @ [v]\<rparr>) d) pid y =
     map_option (\<lambda>n. if map_of (vote_votes v) pid = Some y \<and> y \<noteq> [] then n + 1 else n)
       (tallyOf (getResults st d) pid y)"
proof (cases "find (\<lambda>p. pos_isActive p \<and> pos_id p = pid) (rev (positions_file st))")
  case None
  then show ?thesis by (simp add: tallyOf_getResults)
next
  case (Some p)
  then have "pos_id p = pid" by (auto dest: find_Some_iff [THEN iffD1])
  with Some show ?thesis
    by (simp add: tallyOf_getResults positionResult_votes_snoc)
qed

lemma initialCandidates_keys_aux:
  "fst ` set (fold (\<lambda>candidate acc. AList.update (cand_id candidate) (f candidate) acc) xs acc) =
     cand_id ` set xs \<union> fst ` set acc"
  by (induction xs arbitrary: acc) (auto simp: AList.dom_update)

lemma initialCandidates_keys:
  "fst ` set (initialCandidates cs p) =
     cand_id ` {c \<in> set cs. cand_positionId c = pos_id p \<and> cand_isActive c}"
  unfolding initialCandidates_def by (simp add: initialCandidates_keys_aux)

lemma positionResult_keys:
  "fst ` set (pr_candidates (positionResult es cs vs p)) =
     cand_id ` {c \<in> set cs. cand_positionId c = pos_id p \<and> cand_isActive c}"
proof -
  have "map fst (pr_candidates (positionResult es cs vs p)) = map fst (initialCandidates cs p)"
    by (simp add: positionResult_def Let_def markWinners_keys fold_countVote_keys)
  then have "set (map fst (pr_candidates (positionResult es cs vs p))) = set (map fst (initialCandidates cs p))"
    by simp
  then show ?thesis by (simp add: initialCandidates_keys)
qed

lemma tallyOf_defined:
  assumes "\<exists>p \<in> set (positions_file st). pos_isActive p \<and> pos_id p = pid"
    and "validCandidate (candidates_file st) pid cid \<noteq> None"
  shows "tallyOf (getResults st d) pid cid \<noteq> None"
proof -
  from assms(1) obtain p where p: "find (\<lambda>p. pos_isActive p \<and> pos_id p = pid) (rev (positions_file st)) = Some p"
    by (cases "find (\<lambda>p. pos_isActive p \<and> pos_id p = pid) (rev (positions_file st))")
       (auto simp: find_None_iff)
  then have pid: "pos_id p = pid" by (auto dest: find_Some_iff [THEN iffD1])
  from assms(2) obtain c where "c \<in> set (candidates_file st)" "cand_id c = cid"
    "cand_positionId c = pid" "cand_isActive c"
    by (auto simp: validCandidate_def find_None_iff)
  with pid have "cid \<in> fst ` set (pr_candidates
      (positionResult (loadElectionStatus st) (candidates_file st) (votes_file st) p))"
    unfolding positionResult_keys by auto
  then have "map_of (pr_candidates
      (positionResult (loadElectionStatus st) (candidates_file st) (votes_file st) p)) cid \<noteq> None"
    by (simp add: map_of_eq_None_iff)
  with p show ?thesis by (simp add: tallyOf_getResults)
qed

subsection \<open>Winners\<close>

lemma allAtMost_Cons [simp]: "allAtMost ((k, c) # xs) n \<longleftrightarrow> cr_votes c \<le> n \<and> allAtMost xs n"
  by (simp add: allAtMost_def)

lemma allAtMost_Nil [simp]: "allAtMost [] n"
  by (simp add: allAtMost_def)

lemma winnerLoop_set:
  "k \<in> set (winnerLoop xs m ws) \<longleftrightarrow>
     (k \<in> set ws \<and> allAtMost xs m) \<or>
     (\<exists>c. (k, c) \<in> set xs \<and> 0 < cr_votes c \<and> m \<le> cr_votes c \<and> allAtMost xs (cr_votes c))"
proof (induction xs m ws rule: winnerLoop.induct)
  case (1 m ws)
  show ?case by simp
next
  case (2 k' c' rest m ws)
  consider (gt) "cr_votes c' > m" | (tie) "cr_votes c' = m" "m > 0"
    | (other) "\<not> cr_votes c' > m" "\<not> (cr_votes c' = m \<and> m > 0)" by blast
  then show ?case
  proof cases
    case gt
    have "k \<in> set (winnerLoop ((k', c') # rest) m ws) \<longleftrightarrow> k \<in> set (winnerLoop rest (cr_votes c') [k'])"
      using gt by simp
    also have "\<dots> \<longleftrightarrow> (k = k' \<and> allAtMost rest (cr_votes c')) \<or>
       (\<exists>c. (k, c) \<in> set rest \<and> 0 < cr_votes c \<and> cr_votes c' \<le> cr_votes c \<and> allAtMost rest (cr_votes c))"
      using 2(1) [OF gt] by simp
    also have "\<dots> \<longleftrightarrow> (k \<in> set ws \<and> allAtMost ((k', c') # rest) m) \<or>
     (\<exists>c. (k, c) \<in> set ((k', c') # rest) \<and> 0 < cr_votes c \<and> m \<le> cr_votes c \<and> allAtMost ((k', c') # rest) (cr_votes c))"
      using gt by auto
    finally show ?thesis .
  next
    case tie
    have "k \<in> set (winnerLoop ((k', c') # rest) m ws) \<longleftrightarrow> k \<in> set (winnerLoop rest m (ws @ [k']))"
      using tie by simp
    also have "\<dots> \<longleftrightarrow> ((k \<in> set ws \<or> k = k') \<and> allAtMost rest m) \<or>
       (\<exists>c. (k, c) \<in> set rest \<and> 0 < cr_votes c \<and> m \<le> cr_votes c \<and> allAtMost rest (cr_votes c))"
      using 2(2) tie by auto
    also have "\<dots> \<longleftrightarrow> (k \<in> set ws \<and> allAtMost ((k', c') # rest) m) \<or>
     (\<exists>c. (k, c) \<in> set ((k', c') # rest) \<and> 0 < cr_votes c \<and> m \<le> cr_votes c \<and> allAtMost ((k', c') # rest) (cr_votes c))"
      using tie by auto
    finally show ?thesis .
  next
    case other
    have "k \<in> set (winnerLoop ((k', c') # rest) m ws) \<longleftrightarrow> k \<in> set (winnerLoop rest m ws)"
      using other by auto
    also have "\<dots> \<longleftrightarrow> (k \<in> set ws \<and> allAtMost rest m) \<or>
       (\<exists>c. (k, c) \<in> set rest \<and> 0 < cr_votes c \<and> m \<le> cr_votes c \<and> allAtMost rest (cr_votes c))"
      using 2(3) other by auto
    also have "\<dots> \<longleftrightarrow> (k \<in> set ws \<and> allAtMost ((k', c') # rest) m) \<or>
     (\<exists>c. (k, c) \<in> set ((k', c') # rest) \<and> 0 < cr_votes c \<and> m \<le> cr_votes c \<and> allAtMost ((k', c') # rest) (cr_votes c))"
      using other by auto
    finally show ?thesis .
  qed
qed

lemma winnerLoop_start:
  "k \<in> set (winnerLoop xs 0 []) \<longleftrightarrow>
     (\<exists>c. (k, c) \<in> set xs \<and> 0 < cr_votes c \<and> allAtMost xs (cr_votes c))"
  by (simp add: winnerLoop_set)

lemma markWinners_map:
  "markWinners ws pc =
     map (\<lambda>a. (fst a, if fst a \<in> set ws then (snd a)\<lparr>cr_isWinner := True\<rparr> else snd a)) pc"
proof -
  have a: "fold (\<lambda>winnerId. map (\<lambda>a. if fst a = winnerId
                   then (fst a, (snd a)\<lparr>cr_isWinner := True\<rparr>) else a)) ws pc =
     map (\<lambda>a. (fst a, if fst a \<in> set ws then (snd a)\<lparr>cr_isWinner := True\<rparr> else snd a)) pc"
  proof (induction ws arbitrary: pc)
    case Nil
    show ?case by simp
  next
    case (Cons w ws)
    show ?case unfolding fold_Cons comp_apply Cons.IH map_map
      by (rule map_cong) auto
  qed
  have b: "(\<lambda>winnerId. map (\<lambda>(k, c). if k = winnerId then (k, c\<lparr>cr_isWinner := True\<rparr>) else (k, c)))
    = (\<lambda>winnerId. map (\<lambda>a. if fst a = winnerId
                   then (fst a, (snd a)\<lparr>cr_isWinner := True\<rparr>) else a))"
    by (auto simp: fun_eq_iff case_prod_unfold)
  show ?thesis unfolding markWinners_def b by (rule a)
qed

lemma countVote_isWinner:
  "(k, c) \<in> set (countVote p v pc) \<Longrightarrow> \<exists>c0. (k, c0) \<in> set pc \<and> cr_isWinner c = cr_isWinner c0"
  by (auto simp: countVote_def split: option.splits if_splits)

lemma fold_countVote_isWinner:
  "(k, c) \<in> set (fold (countVote p) vs pc) \<Longrightarrow>
   \<exists>c0. (k, c0) \<in> set pc \<and> cr_isWinner c = cr_isWinner c0"
proof (induction vs arbitrary: pc)
  case Nil
  then show ?case by auto
next
  case (Cons v vs)
  from Cons.IH [of "countVote p v pc"] Cons.prems
  obtain c1 where "(k, c1) \<in> set (countVote p v pc)" "cr_isWinner c = cr_isWinner c1" by auto
  with countVote_isWinner [of k c1 p v pc] show ?case by auto
qed

lemma set_update_cases:
  "(a, b) \<in> set (AList.update k v al) \<Longrightarrow> (a, b) = (k, v) \<or> (a, b) \<in> set al"
  by (induction al) (auto split: if_splits)

lemma initialCandidates_isWinner_aux:
  "(k, c) \<in> set (fold (\<lambda>candidate acc.
             AList.update (cand_id candidate)
               \<lparr>cr_id = cand_id candidate, cr_name = cand_name candidate,
                cr_votes = 0, cr_isWinner = False\<rparr> acc) xs acc) \<Longrightarrow>
   (k, c) \<in> set acc \<or> \<not> cr_isWinner c"
proof (induction xs arbitrary: acc)
  case Nil
  then show ?case by simp
next
  case (Cons x xs)
  from Cons.IH [OF Cons.prems [simplified]] show ?case
    by (auto dest: set_update_cases)
qed

lemma initialCandidates_isWinner:
  "(k, c) \<in> set (initialCandidates cs p) \<Longrightarrow> \<not> cr_isWinner c"
  unfolding initialCandidates_def by (auto dest: initialCandidates_isWinner_aux)

lemma initialCandidates_distinct_aux:
  "distinct (map fst acc) \<Longrightarrow>
   distinct (map fst (fold (\<lambda>candidate acc. AList.update (cand_id candidate) (f candidate) acc) xs acc))"
  by (induction xs arbitrary: acc) (simp_all add: AList.distinct_update)

lemma initialCandidates_distinct: "distinct (map fst (initialCandidates cs p))"
  unfolding initialCandidates_def by (rule initialCandidates_distinct_aux) simp

lemma counted_facts:
  defines "counted cs vs p \<equiv> fold (countVote p) vs (initialCandidates cs p)"
  shows "distinct (map fst (counted cs vs p))"
    and "(k, c) \<in> set (counted cs vs p) \<Longrightarrow> \<not> cr_isWinner c"
proof -
  show "distinct (map fst (counted cs vs p))"
    unfolding counted_def fold_countVote_keys by (rule initialCandidates_distinct)
  show "\<not> cr_isWinner c" if "(k, c) \<in> set (counted cs vs p)"
    using fold_countVote_isWinner [of k c p vs "initialCandidates cs p"] that
      initialCandidates_isWinner [of k _ cs p]
    unfolding counted_def by auto
qed

lemma winners_of_counted:
  assumes d: "distinct (map fst counted)"
    and w: "\<forall>(k, c) \<in> set counted. \<not> cr_isWinner c"
    and m: "(cid, c) \<in> set (markWinners (winnerLoop counted 0 []) counted)"
  shows "cr_isWinner c \<longleftrightarrow>
     0 < cr_votes c \<and>
     (\<forall>(cid', c') \<in> set (markWinners (winnerLoop counted 0 []) counted). cr_votes c' \<le> cr_votes c)"
proof -
  let ?ws = "winnerLoop counted 0 []"
  from m obtain c0 where c0: "(cid, c0) \<in> set counted"
    and c: "c = (if cid \<in> set ?ws then c0\<lparr>cr_isWinner := True\<rparr> else c0)"
    unfolding markWinners_map by auto
  from w c0 have nw: "\<not> cr_isWinner c0" by auto
  have votes: "cr_votes c = cr_votes c0" using c by simp
  have win: "cr_isWinner c \<longleftrightarrow> cid \<in> set ?ws" using c nw by simp
  have same: "(\<forall>(cid', c') \<in> set (markWinners ?ws counted). cr_votes c' \<le> n) \<longleftrightarrow> allAtMost counted n" for n
    unfolding markWinners_map allAtMost_def by (auto split: if_splits)
  have "cid \<in> set ?ws \<longleftrightarrow> 0 < cr_votes c0 \<and> allAtMost counted (cr_votes c0)"
  proof
    assume "cid \<in> set ?ws"
    then obtain c1 where "(cid, c1) \<in> set counted" "0 < cr_votes c1" "allAtMost counted (cr_votes c1)"
      unfolding winnerLoop_start by auto
    moreover from d c0 \<open>(cid, c1) \<in> set counted\<close> have "c1 = c0"
      by (meson eq_key_imp_eq_value)
    ultimately show "0 < cr_votes c0 \<and> allAtMost counted (cr_votes c0)" by simp
  next
    assume "0 < cr_votes c0 \<and> allAtMost counted (cr_votes c0)"
    with c0 show "cid \<in> set ?ws" unfolding winnerLoop_start by auto
  qed
  with win votes same [of "cr_votes c"] show ?thesis by simp
qed

lemma getResults_entries_aux:
  "(k, v) \<in> set (fold (\<lambda>position results.
              if \<not> pos_isActive position then results
              else AList.update (pos_id position) (R position) results) ps acc) \<Longrightarrow>
   (k, v) \<in> set acc \<or> (\<exists>p \<in> set ps. pos_isActive p \<and> k = pos_id p \<and> v = R p)"
proof (induction ps arbitrary: acc)
  case Nil
  then show ?case by simp
next
  case (Cons a ps)
  from Cons.IH [OF Cons.prems [simplified]] show ?case
    by (auto dest: set_update_cases split: if_splits)
qed

lemma getResults_entries:
  "(pid, pr) \<in> set (getResults st d) \<Longrightarrow>
   \<exists>p \<in> set (positions_file st). pos_isActive p \<and> pid = pos_id p \<and>
     pr = positionResult (loadElectionStatus st) (candidates_file st) (votes_file st) p"
  unfolding getResults_def Let_def by (auto dest: getResults_entries_aux)

text \<open>Before the election has ended no candidate is marked.\<close>

lemma no_winner_before_end:
  assumes "statusLabel (loadElectionStatus st) \<noteq> Ended"
    and "(positionId, pr) \<in> set (getResults st detailed)"
    and "(candidateId, c) \<in> set (pr_candidates pr)"
  shows "\<not> cr_isWinner c"
proof -
  let ?es = "loadElectionStatus st"
  from assms(1) have ne: "\<not> (\<not> isActive ?es \<and> orNull (endTime ?es) \<noteq> None)"
    by (auto simp: statusLabel_def split: if_splits)
  from getResults_entries [OF assms(2)] obtain p where
    pr: "pr = positionResult ?es (candidates_file st) (votes_file st) p" by auto
  have "pr_candidates pr = fold (countVote p) (votes_file st) (initialCandidates (candidates_file st) p)"
    using ne unfolding pr positionResult_def Let_def by auto
  with assms(3) counted_facts(2) [of candidateId c p "votes_file st" "candidates_file st"]
  show ?thesis by simp
qed

text \<open>
  C3: once the election has Ended, a candidate listed by \<^verbatim>\<open>getResults\<close> for a position is
  marked winner exactly when its tally is greater than zero and no candidate of that
  position has a greater tally. So all candidates tied at the maximum win, a candidate
  below the maximum does not, and a position whose tallies are all zero has no winner.
  The statement does not depend on the order in which the \<^verbatim>\<open>for...in\<close> loop visits the
  candidates.
\<close>

theorem tie_aware_winners:
  assumes "statusLabel (loadElectionStatus st) = Ended"
    and "(positionId, pr) \<in> set (getResults st detailed)"
    and "(candidateId, c) \<in> set (pr_candidates pr)"
  shows "cr_isWinner c \<longleftrightarrow>
     0 < cr_votes c \<and> (\<forall>(candidateId', c') \<in> set (pr_candidates pr). cr_votes c' \<le> cr_votes c)"
proof -
  let ?es = "loadElectionStatus st"
  from assms(1) have ended: "\<not> isActive ?es \<and> orNull (endTime ?es) \<noteq> None"
    by (auto simp: statusLabel_def split: if_splits)
  from getResults_entries [OF assms(2)] obtain p where
    pr: "pr = positionResult ?es (candidates_file st) (votes_file st) p" by auto
  let ?counted = "fold (countVote p) (votes_file st) (initialCandidates (candidates_file st) p)"
  have cands: "pr_candidates pr = markWinners (winnerLoop ?counted 0 []) ?counted"
    using ended unfolding pr positionResult_def Let_def by simp
  have "\<forall>(k, c) \<in> set ?counted. \<not> cr_isWinner c"
    using counted_facts(2) [of _ _ p "votes_file st" "candidates_file st"] by auto
  from winners_of_counted [OF counted_facts(1) this, of candidateId c] assms(3)
  show ?thesis unfolding cands by simp
qed

lemma ex_tie_getResults:
  "getResults (ex_store ex_ended ex_tie_votes) True = [(''position_1'', ex_tie_result)]"
  by (simp add: getResults_def positionResult_def initialCandidates_def countVote_def
      markWinners_def statusLabel_def loadElectionStatus_def orNull_def Let_def
      ex_store_def ex_ended_def ex_tie_votes_def ex_vote_def ex_position_def ex_candidates_def
      ex_tie_result_def)

theorem tie_aware_winners_witness:
  "statusLabel (loadElectionStatus (ex_store ex_ended ex_tie_votes)) = Ended
   \<and> (''position_1'', ex_tie_result) \<in> set (getResults (ex_store ex_ended ex_tie_votes) True)
   \<and> pr_candidates ex_tie_result =
       [(''candidate_a'', \<lparr>cr_id = ''candidate_a'', cr_name = ''Ada'', cr_votes = 3, cr_isWinner = True\<rparr>),
        (''candidate_b'', \<lparr>cr_id = ''candidate_b'', cr_name = ''Bob'', cr_votes = 3, cr_isWinner = True\<rparr>),
        (''candidate_c'', \<lparr>cr_id = ''candidate_c'', cr_name = ''Cy'', cr_votes = 2, cr_isWinner = False\<rparr>)]
   \<and> (cr_isWinner \<lparr>cr_id = ''candidate_a'', cr_name = ''Ada'', cr_votes = 3, cr_isWinner = True\<rparr>
        \<longleftrightarrow> 0 < cr_votes \<lparr>cr_id = ''candidate_a'', cr_name = ''Ada'', cr_votes = 3, cr_isWinner = True\<rparr>
          \<and> (\<forall>(candidateId', c') \<in> set (pr_candidates ex_tie_result).
                cr_votes c' \<le> cr_votes \<lparr>cr_id = ''candidate_a'', cr_name = ''Ada'', cr_votes = 3,
                                          cr_isWinner = True\<rparr>))
   \<and> (cr_isWinner \<lparr>cr_id = ''candidate_c'', cr_name = ''Cy'', cr_votes = 2, cr_isWinner = False\<rparr>
        \<longleftrightarrow> 0 < cr_votes \<lparr>cr_id = ''candidate_c'', cr_name = ''Cy'', cr_votes = 2, cr_isWinner = False\<rparr>
          \<and> (\<forall>(candidateId', c') \<in> set (pr_candidates ex_tie_result).
                cr_votes c' \<le> cr_votes \<lparr>cr_id = ''candidate_c'', cr_name = ''Cy'', cr_votes = 2,
                                          cr_isWinner = False\<rparr>))"
proof -
  have e: "statusLabel (loadElectionStatus (ex_store ex_ended ex_tie_votes)) = Ended"
    by (simp add: statusLabel_def loadElectionStatus_def ex_store_def ex_ended_def orNull_def)
  have r: "(''position_1'', ex_tie_result) \<in> set (getResults (ex_store ex_ended ex_tie_votes) True)"
    by (simp add: ex_tie_getResults)
  have a: "(''candidate_a'', \<lparr>cr_id = ''candidate_a'', cr_name = ''Ada'', cr_votes = 3, cr_isWinner = True\<rparr>)
      \<in> set (pr_candidates ex_tie_result)"
    by (simp add: ex_tie_result_def)
  have c: "(''candidate_c'', \<lparr>cr_id = ''candidate_c'', cr_name = ''Cy'', cr_votes = 2, cr_isWinner = False\<rparr>)
      \<in> set (pr_candidates ex_tie_result)"
    by (simp add: ex_tie_result_def)
  have p: "pr_candidates ex_tie_result =
       [(''candidate_a'', \<lparr>cr_id = ''candidate_a'', cr_name = ''Ada'', cr_votes = 3, cr_isWinner = True\<rparr>),
        (''candidate_b'', \<lparr>cr_id = ''candidate_b'', cr_name = ''Bob'', cr_votes = 3, cr_isWinner = True\<rparr>),
        (''candidate_c'', \<lparr>cr_id = ''candidate_c'', cr_name = ''Cy'', cr_votes = 2, cr_isWinner = False\<rparr>)]"
    by (simp add: ex_tie_result_def)
  from e r p tie_aware_winners [OF e r a] tie_aware_winners [OF e r c]
  show ?thesis by blast
qed

subsection \<open>Submission followed by tabulation\<close>

text \<open>
  C9: after a successful \<^verbatim>\<open>submitVote(m, votes)\<close>, \<^verbatim>\<open>getResults(true)\<close> lists for every
  entry of \<^verbatim>\<open>votes\<close> the chosen candidate under its position with a tally one greater than
  before, and every other tally is unchanged. \<^verbatim>\<open>votes\<close> is a JavaScript object, so its
  keys are distinct; candidate identifiers are non-empty strings.
\<close>

theorem submit_results_round_trip:
  assumes "submitVote st m votes now rnd = (VoteSubmitted vid, st')"
    and "distinct (map fst votes)"
    and "\<forall>c \<in> set (candidates_file st). cand_id c \<noteq> []"
  shows "(\<forall>(positionId, candidateId) \<in> set votes.
            \<exists>n. tallyOf (getResults st True) positionId candidateId = Some n
               \<and> tallyOf (getResults st' True) positionId candidateId = Some (n + 1))
       \<and> (\<forall>positionId candidateId. (positionId, candidateId) \<notin> set votes \<longrightarrow>
            tallyOf (getResults st' True) positionId candidateId =
            tallyOf (getResults st True) positionId candidateId)"
proof -
  let ?v = "\<lparr>vote_id = vid, vote_memberId = m, vote_timestamp = now, vote_votes = votes\<rparr>"
  have st': "st' = st\<lparr>votes_file := votes_file st @ [?v]\<rparr>"
    using submitVote_success(5) [OF assms(1)] .
  have valid: "\<forall>(positionId, candidateId) \<in> set votes.
           (\<exists>p \<in> set (positions_file st). pos_isActive p \<and> pos_id p = positionId)
           \<and> validCandidate (candidates_file st) positionId candidateId \<noteq> None"
    using submitVote_success(3) [OF assms(1)] .
  have after: "tallyOf (getResults st' True) pid y =
     map_option (\<lambda>n. if map_of votes pid = Some y \<and> y \<noteq> [] then n + 1 else n)
       (tallyOf (getResults st True) pid y)" for pid y
    unfolding st' using tallyOf_after_vote [of st ?v True pid y] by simp
  have chosen: "\<exists>n. tallyOf (getResults st True) pid cid = Some n
               \<and> tallyOf (getResults st' True) pid cid = Some (n + 1)"
    if "(pid, cid) \<in> set votes" for pid cid
  proof -
    from that valid have pos: "\<exists>p \<in> set (positions_file st). pos_isActive p \<and> pos_id p = pid"
      and cand: "validCandidate (candidates_file st) pid cid \<noteq> None" by auto
    from cand assms(3) have "cid \<noteq> []"
      by (auto simp: validCandidate_def find_None_iff)
    moreover from that assms(2) have "map_of votes pid = Some cid" by simp
    moreover from tallyOf_defined [OF pos cand] obtain n where
      "tallyOf (getResults st True) pid cid = Some n" by auto
    ultimately show ?thesis using after [of pid cid] by simp
  qed
  have other: "tallyOf (getResults st' True) pid y = tallyOf (getResults st True) pid y"
    if "(pid, y) \<notin> set votes" for pid y
  proof -
    from that have "map_of votes pid \<noteq> Some y" by (auto dest: map_of_SomeD)
    then show ?thesis using after [of pid y]
      by (cases "tallyOf (getResults st True) pid y") simp_all
  qed
  from chosen other show ?thesis by blast
qed

theorem submit_results_round_trip_witness:
  "submitVote (ex_store ex_active [ex_vote ''member_1'' ''candidate_a'']) ''member_2''
       [(''position_1'', ''candidate_b'')] 1700 ''ijklmnop''
     = (VoteSubmitted (mkVoteId 1700 ''ijklmnop''),
        ex_store ex_active [ex_vote ''member_1'' ''candidate_a'',
          \<lparr>vote_id = mkVoteId 1700 ''ijklmnop'', vote_memberId = ''member_2'',
            vote_timestamp = 1700, vote_votes = [(''position_1'', ''candidate_b'')]\<rparr>])
   \<and> distinct (map fst [(''position_1'', ''candidate_b'')])
   \<and> map cand_id (candidates_file (ex_store ex_active [ex_vote ''member_1'' ''candidate_a'']))
       = [''candidate_a'', ''candidate_b'', ''candidate_c'']
   \<and> tallyOf (getResults (ex_store ex_active [ex_vote ''member_1'' ''candidate_a'']) True)
        ''position_1'' ''candidate_b'' = Some 0
   \<and> tallyOf (getResults (ex_store ex_active [ex_vote ''member_1'' ''candidate_a'',
          \<lparr>vote_id = mkVoteId 1700 ''ijklmnop'', vote_memberId = ''member_2'',
            vote_timestamp = 1700, vote_votes = [(''position_1'', ''candidate_b'')]\<rparr>]) True)
        ''position_1'' ''candidate_b'' = Some 1
   \<and> tallyOf (getResults (ex_store ex_active [ex_vote ''member_1'' ''candidate_a'',
          \<lparr>vote_id = mkVoteId 1700 ''ijklmnop'', vote_memberId = ''member_2'',
            vote_timestamp = 1700, vote_votes = [(''position_1'', ''candidate_b'')]\<rparr>]) True)
        ''position_1'' ''candidate_a''
     = tallyOf (getResults (ex_store ex_active [ex_vote ''member_1'' ''candidate_a'']) True)
        ''position_1'' ''candidate_a''"
proof -
  let ?st = "ex_store ex_active [ex_vote ''member_1'' ''candidate_a'']"
  let ?votes = "[(''position_1'', ''candidate_b'')]"
  let ?st' = "ex_store ex_active [ex_vote ''member_1'' ''candidate_a'',
          \<lparr>vote_id = mkVoteId 1700 ''ijklmnop'', vote_memberId = ''member_2'',
            vote_timestamp = 1700, vote_votes = ?votes\<rparr>]"
  have s: "submitVote ?st ''member_2'' ?votes 1700 ''ijklmnop''
      = (VoteSubmitted (mkVoteId 1700 ''ijklmnop''), ?st')"
    by (simp add: submitVote_def loadElectionStatus_def ex_store_def ex_active_def orNull_def
        fileDb_findBy_def fileDb_create_def ex_position_def ex_candidates_def validCandidate_def
        ex_vote_def Let_def)
  have d: "distinct (map fst ?votes)" by simp
  have i: "\<forall>c \<in> set (candidates_file ?st). cand_id c \<noteq> []"
    by (simp add: ex_store_def ex_candidates_def)
  have t: "tallyOf (getResults ?st True) ''position_1'' ''candidate_b'' = Some 0"
    by (simp add: tallyOf_def getResults_def positionResult_def initialCandidates_def countVote_def
        loadElectionStatus_def Let_def ex_store_def ex_active_def ex_position_def ex_candidates_def
        ex_vote_def)
  note rt = submit_results_round_trip [OF s d i]
  from rt have "\<exists>n. tallyOf (getResults ?st True) ''position_1'' ''candidate_b'' = Some n
       \<and> tallyOf (getResults ?st' True) ''position_1'' ''candidate_b'' = Some (n + 1)"
    by simp
  with t have b: "tallyOf (getResults ?st' True) ''position_1'' ''candidate_b'' = Some 1" by simp
  from rt have a: "tallyOf (getResults ?st' True) ''position_1'' ''candidate_a''
      = tallyOf (getResults ?st True) ''position_1'' ''candidate_a''"
    by simp
  have ids: "map cand_id (candidates_file ?st) = [''candidate_a'', ''candidate_b'', ''candidate_c'']"
    by (simp add: ex_store_def ex_candidates_def)
  from s d ids t b a show ?thesis by blast
qed

subsection \<open>The empty ballot\<close>

lemma submitRoute_empty:
  "fst (submitRoute st m (Some []) now1 now2 rnd) =
     (if sv_isActive (fst (getElectionStatus st now1)) then (400, NoVotesSubmitted)
      else (403, VotingNotActive))"
  by (simp add: submitRoute_def split: prod.splits)

text \<open>
  C10: at the service layer an empty \<^verbatim>\<open>votes\<close> object from a member without a vote is
  accepted while the election is active. The stored Vote record has an empty mapping; it
  raises the total by one, makes every later submission of the member fail with
  \<open>AlreadyVoted\<close>, and changes no tally.
\<close>

theorem empty_ballot_accepted:
  assumes "isActive (loadElectionStatus st)"
    and "fileDb_findBy (votes_file st) vote_memberId m = None"
  shows "(let voteRecord = \<lparr>vote_id = mkVoteId now rnd, vote_memberId = m,
                           vote_timestamp = now, vote_votes = []\<rparr>;
             st' = st\<lparr>votes_file := votes_file st @ [voteRecord]\<rparr>
         in submitVote st m [] now rnd = (VoteSubmitted (mkVoteId now rnd), st')
          \<and> totalVotes st' = totalVotes st + 1
          \<and> submitVote st' m votes' now' rnd' = (AlreadyVoted (mkVoteId now rnd), st')
          \<and> (\<forall>positionId candidateId.
                tallyOf (getResults st' detailed) positionId candidateId =
                tallyOf (getResults st detailed) positionId candidateId))"
proof -
  let ?v = "\<lparr>vote_id = mkVoteId now rnd, vote_memberId = m,
             vote_timestamp = now, vote_votes = []\<rparr>"
  let ?st' = "st\<lparr>votes_file := votes_file st @ [?v]\<rparr>"
  have 1: "submitVote st m [] now rnd = (VoteSubmitted (mkVoteId now rnd), ?st')"
    using submitVote_empty [OF assms] .
  have 2: "totalVotes ?st' = totalVotes st + 1" by (simp add: totalVotes_def)
  have "fileDb_findBy (votes_file ?st') vote_memberId m = Some ?v"
    using assms(2) by (simp add: findBy_append)
  moreover have "isActive (loadElectionStatus ?st')" using assms(1) by simp
  ultimately have 3: "submitVote ?st' m votes' now' rnd' = (AlreadyVoted (mkVoteId now rnd), ?st')"
    using submitVote_already_voted [of ?st' m ?v votes' now' rnd'] by simp
  have 4: "tallyOf (getResults ?st' detailed) pid cid = tallyOf (getResults st detailed) pid cid"
    for pid cid
    using tallyOf_after_vote [of st ?v detailed pid cid]
    by (cases "tallyOf (getResults st detailed) pid cid") simp_all
  from 1 2 3 4 show ?thesis by (simp add: Let_def)
qed

theorem empty_ballot_accepted_witness:
  "isActive (loadElectionStatus (ex_store ex_active []))
   \<and> fileDb_findBy (votes_file (ex_store ex_active [])) vote_memberId ''member_1'' = None
   \<and> submitVote (ex_store ex_active []) ''member_1'' [] 1500 ''abcdefgh'' =
       (VoteSubmitted (mkVoteId 1500 ''abcdefgh''),
        ex_store ex_active [\<lparr>vote_id = mkVoteId 1500 ''abcdefgh'', vote_memberId = ''member_1'',
                             vote_timestamp = 1500, vote_votes = []\<rparr>])
   \<and> totalVotes (ex_store ex_active [\<lparr>vote_id = mkVoteId 1500 ''abcdefgh'',
         vote_memberId = ''member_1'', vote_timestamp = 1500, vote_votes = []\<rparr>]) = 1
   \<and> fst (submitVote (ex_store ex_active [\<lparr>vote_id = mkVoteId 1500 ''abcdefgh'',
         vote_memberId = ''member_1'', vote_timestamp = 1500, vote_votes = []\<rparr>])
         ''member_1'' [(''position_1'', ''candidate_a'')] 1600 ''ijklmnop'')
       = AlreadyVoted (mkVoteId 1500 ''abcdefgh'')
   \<and> tallyOf (getResults (ex_store ex_active [\<lparr>vote_id = mkVoteId 1500 ''abcdefgh'',
         vote_memberId = ''member_1'', vote_timestamp = 1500, vote_votes = []\<rparr>]) True)
         ''position_1'' ''candidate_a'' = Some 0"
proof -
  have a: "isActive (loadElectionStatus (ex_store ex_active []))"
    by (simp add: loadElectionStatus_def ex_store_def ex_active_def)
  have n: "fileDb_findBy (votes_file (ex_store ex_active [])) vote_memberId ''member_1'' = None"
    by (simp add: fileDb_findBy_def ex_store_def)
  have s: "(ex_store ex_active [])\<lparr>votes_file := votes_file (ex_store ex_active []) @ vs\<rparr>
      = ex_store ex_active vs" for vs
    by (simp add: ex_store_def)
  have t: "tallyOf (getResults (ex_store ex_active []) True) ''position_1'' ''candidate_a'' = Some 0"
    by (simp add: tallyOf_def getResults_def positionResult_def initialCandidates_def
        loadElectionStatus_def Let_def ex_store_def ex_active_def ex_position_def ex_candidates_def)
  have z: "totalVotes (ex_store ex_active []) = 0" by (simp add: totalVotes_def ex_store_def)
  show ?thesis
    using a n t z empty_ballot_accepted [OF a n, of 1500 "''abcdefgh''"
        "[(''position_1'', ''candidate_a'')]" 1600 "''ijklmnop''" True]
    by (simp add: Let_def s)
qed


section \<open>Properties of code verification\<close>

lemma verifyOTP_none:
  "fst s phoneNumber = None \<Longrightarrow> verifyOTP D s phoneNumber code now tok = (NoActiveChallenge, s)"
  by (simp add: verifyOTP_def Let_def)

lemma verifyOTP_mismatch:
  "fst s phoneNumber = Some d \<Longrightarrow> now \<le> expiryTime d \<Longrightarrow> attempts d + 1 < 5 \<Longrightarrow>
   code \<noteq> otp d \<Longrightarrow>
   verifyOTP D s phoneNumber code now tok =
     (CodeMismatch, (fst s)(phoneNumber \<mapsto> d\<lparr>attempts := attempts d + 1\<rparr>), snd s)"
  by (simp add: verifyOTP_def Let_def)

lemma verifyOTP_exhausted:
  "fst s phoneNumber = Some d \<Longrightarrow> now \<le> expiryTime d \<Longrightarrow> 4 \<le> attempts d \<Longrightarrow>
   verifyOTP D s phoneNumber code now tok =
     (TooManyAttempts, (fst s)(phoneNumber := None), snd s)"
  by (simp add: verifyOTP_def Let_def)

lemma verifySeq_mismatches:
  assumes "fst s phoneNumber = Some d"
    and "\<forall>(code, now, tok) \<in> set calls. code \<noteq> otp d \<and> now \<le> expiryTime d"
    and "attempts d + length calls < 5"
  shows "verifySeq D s phoneNumber calls =
     (replicate (length calls) CodeMismatch,
      if calls = [] then s
      else ((fst s)(phoneNumber \<mapsto> d\<lparr>attempts := attempts d + length calls\<rparr>), snd s))"
  using assms
proof (induction calls arbitrary: s d)
  case Nil
  show ?case by simp
next
  case (Cons call calls)
  obtain code now tok where call: "call = (code, now, tok)" by (cases call)
  let ?d = "d\<lparr>attempts := attempts d + 1\<rparr>"
  let ?s = "((fst s)(phoneNumber \<mapsto> ?d), snd s)"
  have step: "verifyOTP D s phoneNumber code now tok = (CodeMismatch, ?s)"
    using verifyOTP_mismatch [of s phoneNumber d now code D tok] Cons.prems call by simp
  have rest: "verifySeq D ?s phoneNumber calls =
     (replicate (length calls) CodeMismatch,
      if calls = [] then ?s
      else ((fst ?s)(phoneNumber \<mapsto> ?d\<lparr>attempts := attempts ?d + length calls\<rparr>), snd ?s))"
    using Cons.prems by (intro Cons.IH) auto
  show ?case unfolding call using step rest by (auto simp: Let_def)
qed

lemma verifySeq_append:
  "verifySeq D s phoneNumber (xs @ ys) =
     (let (rs, s') = verifySeq D s phoneNumber xs;
          (rs', s'') = verifySeq D s' phoneNumber ys
      in (rs @ rs', s''))"
  by (induction xs arbitrary: s) (auto simp: Let_def split: prod.splits)

text \<open>
  C6, as stated: after five failed calls the sixth call, with the correct code, fails with
  \<open>NoActiveChallenge\<close>, not with \<open>TooManyAttempts\<close>: the fifth call has already evicted
  the credential.
\<close>

theorem attempt_exhaustion_counterexample:
  "fst (verifySeq 1800000 (ex_otps, ex_auth_db) ''+15550100''
     [(''000000'', 1000, ''t1''), (''000000'', 2000, ''t2''), (''000000'', 3000, ''t3''),
      (''000000'', 4000, ''t4''), (''000000'', 5000, ''t5''), (''123456'', 6000, ''t6'')])
   = [CodeMismatch, CodeMismatch, CodeMismatch, CodeMismatch, TooManyAttempts, NoActiveChallenge]"
  by (simp add: verifyOTP_def ex_otps_def Let_def)

text \<open>
  C6 (amended): for a fresh credential, after four mismatching calls within the expiry
  time the fifth call brings the counter to 5, fails with \<open>TooManyAttempts\<close> whatever
  code it submits and evicts the credential; the sixth call fails with
  \<open>NoActiveChallenge\<close> whatever code it submits.
\<close>

theorem attempt_exhaustion:
  assumes "fst s phoneNumber = Some d" and "attempts d = 0"
    and "length calls = 4"
    and "\<forall>(code, now, tok) \<in> set calls. code \<noteq> otp d \<and> now \<le> expiryTime d"
    and "now5 \<le> expiryTime d"
  shows "verifySeq D s phoneNumber (calls @ [(code5, now5, tok5), (code6, now6, tok6)]) =
     ([CodeMismatch, CodeMismatch, CodeMismatch, CodeMismatch, TooManyAttempts, NoActiveChallenge],
      (fst s)(phoneNumber := None), snd s)"
proof -
  let ?d = "d\<lparr>attempts := 4\<rparr>"
  let ?s = "((fst s)(phoneNumber \<mapsto> ?d), snd s)"
  from assms(3) have ne: "calls \<noteq> []" by auto
  have four: "verifySeq D s phoneNumber calls = (replicate 4 CodeMismatch, ?s)"
    using verifySeq_mismatches [OF assms(1) assms(4), of D] assms(2,3) ne by simp
  have five: "verifyOTP D ?s phoneNumber code5 now5 tok5 =
      (TooManyAttempts, (fst s)(phoneNumber := None), snd s)"
    using verifyOTP_exhausted [of ?s phoneNumber ?d now5 D code5 tok5] assms(5) by simp
  have six: "verifyOTP D ((fst s)(phoneNumber := None), snd s) phoneNumber code6 now6 tok6 =
      (NoActiveChallenge, (fst s)(phoneNumber := None), snd s)"
    by (simp add: verifyOTP_none)
  have rep: "replicate 4 CodeMismatch = [CodeMismatch, CodeMismatch, CodeMismatch, CodeMismatch]"
    by (simp add: numeral_eq_Suc)
  show ?thesis
    unfolding verifySeq_append four by (simp add: five six rep)
qed

theorem attempt_exhaustion_witness:
  "fst (ex_otps, ex_auth_db) ''+15550100'' =
       Some \<lparr>otp = ''123456'', expiryTime = 600000, otp_memberId = ''member_1'', attempts = 0\<rparr>
   \<and> verifySeq 1800000 (ex_otps, ex_auth_db) ''+15550100''
     ([(''000000'', 1000, ''t1''), (''111111'', 2000, ''t2''), (''222222'', 3000, ''t3''),
       (''333333'', 4000, ''t4'')] @ [(''123456'', 5000, ''t5''), (''123456'', 6000, ''t6'')])
     = ([CodeMismatch, CodeMismatch, CodeMismatch, CodeMismatch, TooManyAttempts, NoActiveChallenge],
        Map.empty, ex_auth_db)"
proof -
  let ?d = "\<lparr>otp = ''123456'', expiryTime = 600000, otp_memberId = ''member_1'', attempts = 0\<rparr>"
  let ?calls = "[(''000000'', 1000, ''t1''), (''111111'', 2000, ''t2''), (''222222'', 3000, ''t3''),
       (''333333'', 4000::int, ''t4'')]"
  have h1: "fst (ex_otps, ex_auth_db) ''+15550100'' = Some ?d" by (simp add: ex_otps_def)
  have h2: "attempts ?d = 0" by simp
  have h3: "length ?calls = 4" by simp
  have h4: "\<forall>(code, now, tok) \<in> set ?calls. code \<noteq> otp ?d \<and> now \<le> expiryTime ?d" by simp
  have h5: "5000 \<le> expiryTime ?d" by simp
  have e: "(fst (ex_otps, ex_auth_db))(''+15550100'' := None) = Map.empty"
    by (simp add: ex_otps_def)
  show ?thesis
    using attempt_exhaustion [OF h1 h2 h3 h4 h5, of 1800000 "''123456''" "''t5''" "''123456''" 6000 "''t6''"] h1 e
    by simp
qed

section \<open>Properties of session termination\<close>

lemma findIndex_None_iff: "findIndex P xs = None \<longleftrightarrow> (\<forall>x \<in> set xs. \<not> P x)"
  by (induction xs) auto

lemma findIndex_remove:
  "findIndex P xs = Some i \<Longrightarrow>
   take i xs @ drop (Suc i) xs = (case find P xs of None \<Rightarrow> xs | Some x \<Rightarrow> remove1 x xs)"
proof (induction xs arbitrary: i)
  case Nil
  then show ?case by simp
next
  case (Cons x xs)
  show ?case
  proof (cases "P x")
    case True
    with Cons.prems show ?thesis by simp
  next
    case False
    with Cons.prems obtain j where j: "findIndex P xs = Some j" "i = Suc j" by auto
    from j(1) have "find P xs \<noteq> None"
      using findIndex_None_iff [of P xs] by (auto simp: find_None_iff)
    then obtain y where y: "find P xs = Some y" by auto
    then have "P y" by (auto simp: find_Some_iff)
    with False have "x \<noteq> y" by auto
    with Cons.IH [OF j(1)] j(2) y False show ?thesis by simp
  qed
qed

lemma fileDb_remove_eq:
  "fileDb_remove records field v =
     (case fileDb_findBy records field v of
        None \<Rightarrow> (False, records)
      | Some r \<Rightarrow> (True, remove1 r records))"
proof (cases "findIndex (\<lambda>record. field record = v) records")
  case None
  then have "find (\<lambda>record. field record = v) records = None"
    by (simp add: findIndex_None_iff find_None_iff)
  with None show ?thesis by (simp add: fileDb_remove_def fileDb_findBy_def)
next
  case (Some i)
  then have "find (\<lambda>record. field record = v) records \<noteq> None"
    using findIndex_None_iff [of "\<lambda>record. field record = v" records]
    by (auto simp: find_None_iff)
  with Some findIndex_remove [OF Some] show ?thesis
    by (auto simp: fileDb_remove_def fileDb_findBy_def)
qed

lemma endSession_eq:
  "endSession st tok =
     (case tok of
        None \<Rightarrow> (False, st)
      | Some t \<Rightarrow>
          if t = [] then (False, st)
          else (case fileDb_findBy (sessions_file st) sess_id t of
                  None \<Rightarrow> (False, st)
                | Some r \<Rightarrow> (True, st\<lparr>sessions_file := remove1 r (sessions_file st)\<rparr>)))"
  by (simp add: endSession_def fileDb_remove_eq split: option.splits)

text \<open>
  C8, as stated: for a token that is not in the session store, for a missing token and
  for the empty token \<^verbatim>\<open>endSession\<close> returns false.
\<close>

theorem endSession_counterexample:
  "fileDb_findBy (sessions_file ex_auth_db) sess_id ''token_zzz'' = None
   \<and> endSession ex_auth_db (Some ''token_zzz'') = (False, ex_auth_db)
   \<and> endSession ex_auth_db None = (False, ex_auth_db)
   \<and> endSession ex_auth_db (Some []) = (False, ex_auth_db)"
  by (simp add: endSession_eq fileDb_findBy_def ex_auth_db_def)

text \<open>
  C8 (amended): \<^verbatim>\<open>endSession\<close> deletes the first session whose id is the token and
  returns true exactly when there was one; for a missing, empty or unknown token it
  returns false and leaves the store as it is. With unique session ids a second call with
  the same token returns false and changes nothing. The logout handler drops the boolean
  and reports success for every token.
\<close>

theorem endSession_reports_removal:
  "endSession st tok =
     (case tok of
        None \<Rightarrow> (False, st)
      | Some t \<Rightarrow>
          if t = [] then (False, st)
          else (case fileDb_findBy (sessions_file st) sess_id t of
                  None \<Rightarrow> (False, st)
                | Some r \<Rightarrow> (True, st\<lparr>sessions_file := remove1 r (sessions_file st)\<rparr>)))
   \<and> (distinct (map sess_id (sessions_file st)) \<longrightarrow>
        endSession (snd (endSession st tok)) tok = (False, snd (endSession st tok)))
   \<and> logoutRoute st tok = (True, snd (endSession st tok))"
proof -
  have idem: "endSession (snd (endSession st tok)) tok = (False, snd (endSession st tok))"
    if d: "distinct (map sess_id (sessions_file st))"
  proof (cases tok)
    case None
    then show ?thesis by (simp add: endSession_eq)
  next
    case (Some t)
    show ?thesis
    proof (cases "t = [] \<or> fileDb_findBy (sessions_file st) sess_id t = None")
      case True
      with Some show ?thesis by (auto simp: endSession_eq)
    next
      case False
      then obtain r where r: "fileDb_findBy (sessions_file st) sess_id t = Some r" "t \<noteq> []" by auto
      then have rin: "r \<in> set (sessions_file st)" "sess_id r = t"
        by (auto simp: fileDb_findBy_def find_Some_iff)
      have "t \<notin> sess_id ` set (remove1 r (sessions_file st))"
      proof
        assume "t \<in> sess_id ` set (remove1 r (sessions_file st))"
        then obtain r' where r': "r' \<in> set (remove1 r (sessions_file st))" "sess_id r' = t" by auto
        from d have dd: "distinct (sessions_file st)" by (simp add: distinct_map)
        from r' dd have "r' \<in> set (sessions_file st)" "r' \<noteq> r" by auto
        with d rin r'(2) show False by (auto simp: distinct_map inj_on_def)
      qed
      then have "fileDb_findBy (remove1 r (sessions_file st)) sess_id t = None"
        by (simp add: findBy_None_iff)
      with Some r show ?thesis by (simp add: endSession_eq)
    qed
  qed
  have "logoutRoute st tok = (True, snd (endSession st tok))"
    by (simp add: logoutRoute_def endSession_def split: option.splits)
  with idem endSession_eq [of st tok] show ?thesis by blast
qed

theorem endSession_reports_removal_witness:
  "distinct (map sess_id (sessions_file ex_auth_db))
   \<and> endSession ex_auth_db (Some ''token_a'') = (True, ex_auth_db\<lparr>sessions_file := []\<rparr>)
   \<and> endSession (ex_auth_db\<lparr>sessions_file := []\<rparr>) (Some ''token_a'')
       = (False, ex_auth_db\<lparr>sessions_file := []\<rparr>)
   \<and> logoutRoute ex_auth_db (Some ''token_a'') = (True, ex_auth_db\<lparr>sessions_file := []\<rparr>)"
proof -
  have d: "distinct (map sess_id (sessions_file ex_auth_db))" by (simp add: ex_auth_db_def)
  have f: "fileDb_findBy (sessions_file ex_auth_db) sess_id ''token_a'' = Some (hd (sessions_file ex_auth_db))"
    by (simp add: fileDb_findBy_def ex_auth_db_def)
  have r: "remove1 (hd (sessions_file ex_auth_db)) (sessions_file ex_auth_db) = []"
    by (simp add: ex_auth_db_def)
  note t = endSession_reports_removal [of ex_auth_db "Some ''token_a''"]
  have e: "endSession ex_auth_db (Some ''token_a'') = (True, ex_auth_db\<lparr>sessions_file := []\<rparr>)"
    using t f r by simp
  from t d have "endSession (snd (endSession ex_auth_db (Some ''token_a''))) (Some ''token_a'')
      = (False, snd (endSession ex_auth_db (Some ''token_a'')))"
    and "logoutRoute ex_auth_db (Some ''token_a'') = (True, snd (endSession ex_auth_db (Some ''token_a'')))"
    by blast+
  with d e show ?thesis by simp
qed

end
